theory Spec2Isabelle
  imports Complex_Main "HOL-Library.Sublist"
begin

section \<open>The 3d-view scene pipeline (main.go)\<close>

text \<open>
  The program keeps a cumulative rotation matrix and a list of polygons, and on every
  frame transforms the polygons, runs a depth-ordering pass and pushes 2D vertices to a
  drawing surface. This theory embeds the functions of \<^verbatim>\<open>main.go\<close> that do so.

  Conventions of the embedding:
  \<^item> Go's \<^verbatim>\<open>float64\<close> is read as \<^typ>\<open>real\<close>: \<^verbatim>\<open>+\<close>, \<^verbatim>\<open>*\<close>, \<^verbatim>\<open>/\<close>,
    \<^verbatim>\<open>math.Sqrt\<close>, \<^verbatim>\<open>math.Cos\<close>, \<^verbatim>\<open>math.Sin\<close> are the exact operations, so rounding,
    infinities, NaN and the sign of zero are outside the model. The one NaN that the
    code itself can make from finite input, \<^verbatim>\<open>0/0\<close> in \<^verbatim>\<open>computeCentroid\<close> of an
    empty slice, is written out as \<open>None\<close>.
  \<^item> Slices and pointers are explicit: a slice is a header (backing array, offset,
    length, capacity) into a store of arrays, a \<^verbatim>\<open>*Polygon\<close> is an optional address
    into a store of polygon structs (\<open>None\<close> is \<^verbatim>\<open>nil\<close>). Allocation appends to the
    store, so an address is an index and a fresh address is the store's length.
  \<^item> A run-time panic is a value \<open>Inl e\<close>; a function that can panic returns
    \<open>error + result\<close>.
  \<^item> The receivers \<^verbatim>\<open>*Space\<close> and \<^verbatim>\<open>*imdraw.IMDraw\<close> are passed as values and
    returned updated (they are taken to be non-nil); the window argument of
    \<^verbatim>\<open>imd.Draw(win)\<close> is not modelled.
\<close>

subsection \<open>Structs\<close>

record Point =
  X :: real
  Y :: real
  Z :: real

record Vector =
  X :: real
  Y :: real
  Z :: real

record Matrix =
  X :: Vector
  Y :: Vector
  Z :: Vector

type_synonym addr = nat

text \<open>A slice header: \<^verbatim>\<open>s[i]\<close> is element \<open>off + i\<close> of the backing array.\<close>

record Slice =
  array :: addr
  off :: nat
  len :: nat
  cap :: nat

text \<open>\<^verbatim>\<open>color.Color\<close> is an interface; the colour type is a parameter \<open>'c\<close>.\<close>

record 'c Polygon =
  Points :: Slice
  Color :: 'c

text \<open>\<^verbatim>\<open>type PointsSet []Point\<close>: a slice header as well.\<close>

type_synonym PointsSet = Slice

record ByCentroidDistance =
  ps :: Slice
  refPoint :: Point

record Space =
  Matrix :: Matrix
  Objects :: "addr option list"

subsection \<open>Panics and sequencing\<close>

datatype error =
  Panic string
  | IndexOutOfRange
  | NilDereference

definition bind_err :: "error + 'a \<Rightarrow> ('a \<Rightarrow> error + 'b) \<Rightarrow> error + 'b" where
  "bind_err r f = (case r of Inl e \<Rightarrow> Inl e | Inr x \<Rightarrow> f x)"

text \<open>A \<^verbatim>\<open>for ... range\<close> loop whose body can panic: the first panic ends the loop.\<close>

fun for_each :: "('a \<Rightarrow> 's \<Rightarrow> error + 's) \<Rightarrow> 'a list \<Rightarrow> 's \<Rightarrow> error + 's" where
  "for_each body [] s = Inr s"
| "for_each body (x # xs) s = bind_err (body x s) (for_each body xs)"

subsection \<open>The store\<close>

record 'c Heap =
  point_arrays :: "Point list list"
  set_arrays :: "Slice list list"
  polygon_objs :: "'c Polygon list"

definition zeroPoint :: Point where
  "zeroPoint = \<lparr>Point.X = 0, Y = 0, Z = 0\<rparr>"

text \<open>\<^verbatim>\<open>make([]Point, n)\<close>: a fresh array of \<open>n\<close> zero values, length and capacity \<open>n\<close>.\<close>

definition make_Points :: "nat \<Rightarrow> 'c Heap \<Rightarrow> 'c Heap \<times> Slice" where
  "make_Points n h =
     (h\<lparr>point_arrays := point_arrays h @ [replicate n zeroPoint]\<rparr>,
      \<lparr>array = length (point_arrays h), off = 0, len = n, cap = n\<rparr>)"

definition nilSlice :: Slice where
  "nilSlice = \<lparr>array = 0, off = 0, len = 0, cap = 0\<rparr>"

text \<open>\<^verbatim>\<open>make([]PointsSet, n)\<close>: the zero value of a slice is the nil slice.\<close>

definition make_Sets :: "nat \<Rightarrow> 'c Heap \<Rightarrow> 'c Heap \<times> Slice" where
  "make_Sets n h =
     (h\<lparr>set_arrays := set_arrays h @ [replicate n nilSlice]\<rparr>,
      \<lparr>array = length (set_arrays h), off = 0, len = n, cap = n\<rparr>)"

text \<open>Element \<open>i\<close> of a \<^verbatim>\<open>[]Point\<close>, as a \<^verbatim>\<open>range\<close> loop reads it (no bounds check
  is needed there: \<open>i\<close> runs below the length).\<close>

definition elem :: "'c Heap \<Rightarrow> Slice \<Rightarrow> nat \<Rightarrow> Point" where
  "elem h s i = point_arrays h ! array s ! (off s + i)"

definition elems :: "'c Heap \<Rightarrow> Slice \<Rightarrow> Point list" where
  "elems h s = map (elem h s) [0..<len s]"

text \<open>The index expression \<^verbatim>\<open>s[i]\<close>, which panics out of range.\<close>

definition index_Point :: "'c Heap \<Rightarrow> Slice \<Rightarrow> nat \<Rightarrow> error + Point" where
  "index_Point h s i = (if i < len s then Inr (elem h s i) else Inl IndexOutOfRange)"

text \<open>The assignment \<^verbatim>\<open>s[i] = v\<close> on a \<^verbatim>\<open>[]Point\<close>.\<close>

definition store_Point :: "Slice \<Rightarrow> nat \<Rightarrow> Point \<Rightarrow> 'c Heap \<Rightarrow> error + 'c Heap" where
  "store_Point s i v h =
     (if i < len s
      then Inr (h\<lparr>point_arrays :=
                   (point_arrays h)[array s := (point_arrays h ! array s)[off s + i := v]]\<rparr>)
      else Inl IndexOutOfRange)"

text \<open>
  \<^verbatim>\<open>append(s, v)\<close> on a \<^verbatim>\<open>[]Point\<close>: within the capacity the element is written into
  the backing array in place; otherwise a new array is allocated, the elements are
  copied and the header points to the new array. Go leaves the new capacity to the
  run time (``sufficiently large''); here it is the larger of the needed length and
  twice the old capacity.
\<close>

definition append_Point :: "Slice \<Rightarrow> Point \<Rightarrow> 'c Heap \<Rightarrow> 'c Heap \<times> Slice" where
  "append_Point s v h =
     (if len s < cap s
      then (h\<lparr>point_arrays :=
                (point_arrays h)[array s := (point_arrays h ! array s)[off s + len s := v]]\<rparr>,
            s\<lparr>len := len s + 1\<rparr>)
      else let newcap = max (len s + 1) (2 * cap s)
           in (h\<lparr>point_arrays := point_arrays h @
                    [elems h s @ [v] @ replicate (newcap - (len s + 1)) zeroPoint]\<rparr>,
               \<lparr>array = length (point_arrays h), off = 0, len = len s + 1, cap = newcap\<rparr>))"

text \<open>\<^verbatim>\<open>s[i]\<close> and \<^verbatim>\<open>s[i] = v\<close> on a \<^verbatim>\<open>[]PointsSet\<close>.\<close>

definition index_Set :: "'c Heap \<Rightarrow> Slice \<Rightarrow> nat \<Rightarrow> error + PointsSet" where
  "index_Set h s i =
     (if i < len s then Inr (set_arrays h ! array s ! (off s + i)) else Inl IndexOutOfRange)"

definition store_Set :: "Slice \<Rightarrow> nat \<Rightarrow> PointsSet \<Rightarrow> 'c Heap \<Rightarrow> error + 'c Heap" where
  "store_Set s i v h =
     (if i < len s
      then Inr (h\<lparr>set_arrays :=
                   (set_arrays h)[array s := (set_arrays h ! array s)[off s + i := v]]\<rparr>)
      else Inl IndexOutOfRange)"

text \<open>Reading through a \<^verbatim>\<open>*Polygon\<close>; allocation of a struct (\<^verbatim>\<open>&Polygon{...}\<close>).\<close>

definition deref :: "'c Heap \<Rightarrow> addr option \<Rightarrow> error + 'c Polygon" where
  "deref h p =
     (case p of
        None \<Rightarrow> Inl NilDereference
      | Some a \<Rightarrow> if a < length (polygon_objs h) then Inr (polygon_objs h ! a)
                  else Inl NilDereference)"

definition new_Polygon :: "'c Polygon \<Rightarrow> 'c Heap \<Rightarrow> 'c Heap \<times> addr option" where
  "new_Polygon P h =
     (h\<lparr>polygon_objs := polygon_objs h @ [P]\<rparr>, Some (length (polygon_objs h)))"

subsection \<open>The drawing surface\<close>

text \<open>
  \<^verbatim>\<open>imdraw.IMDraw\<close> belongs to the pixel library. The program sets its \<^verbatim>\<open>Color\<close>
  field and calls \<^verbatim>\<open>Push\<close>, \<^verbatim>\<open>Polygon\<close> and \<^verbatim>\<open>Draw\<close>; the model keeps the field and
  the sequence of calls, a pushed vertex together with the colour in force.
\<close>

type_synonym Vec = "real \<times> real"

definition V :: "real \<Rightarrow> real \<Rightarrow> Vec" where
  "V x y = (x, y)"

datatype 'c call =
  PushCall Vec 'c
  | PolygonCall real
  | DrawCall

record 'c IMDraw =
  Color :: 'c
  calls :: "'c call list"

definition Push :: "Vec \<Rightarrow> 'c IMDraw \<Rightarrow> 'c IMDraw" where
  "Push v imd = imd\<lparr>calls := calls imd @ [PushCall v (Color imd)]\<rparr>"

definition imd_Polygon :: "real \<Rightarrow> 'c IMDraw \<Rightarrow> 'c IMDraw" where
  "imd_Polygon thickness imd = imd\<lparr>calls := calls imd @ [PolygonCall thickness]\<rparr>"

definition imd_Draw :: "'c IMDraw \<Rightarrow> 'c IMDraw" where
  "imd_Draw imd = imd\<lparr>calls := calls imd @ [DrawCall]\<rparr>"

subsection \<open>Polygons\<close>

text \<open>\<^verbatim>\<open>func (p *Polygon) build(imd *imdraw.IMDraw, win *pixelgl.Window)\<close>\<close>

definition build :: "addr option \<Rightarrow> 'c IMDraw \<Rightarrow> 'c Heap \<Rightarrow> error + 'c IMDraw" where
  "build p imd h =
     bind_err (deref h p) (\<lambda>P.
       let imd1 = fold (\<lambda>i imd'.
                          let point = elem h (Points P) i
                          in Push (V (Point.X point) (Point.Y point))
                               (imd'\<lparr>Color := Polygon.Color P\<rparr>))
                    [0..<len (Points P)] imd;
           imd2 = imd1\<lparr>Color := Polygon.Color P\<rparr>
       in bind_err (index_Point h (Points P) 0) (\<lambda>first.
            Inr (imd_Draw (imd_Polygon 1
                   (Push (V (Point.X first) (Point.Y first)) imd2)))))"

text \<open>\<^verbatim>\<open>func (p *Polygon) Transform(m Matrix) *Polygon\<close>\<close>

definition Transform ::
  "addr option \<Rightarrow> Matrix \<Rightarrow> 'c Heap \<Rightarrow> error + ('c Heap \<times> addr option)" where
  "Transform p m h =
     bind_err (deref h p) (\<lambda>P.
       let (h1, newPoints) = make_Points (len (Points P)) h
       in bind_err
            (for_each (\<lambda>i h'.
                 let point = elem h' (Points P) i
                 in store_Point newPoints i
                      \<lparr>Point.X = Point.X point * Vector.X (X m) + Point.Y point * Vector.X (Y m)
                                  + Point.Z point * Vector.X (Z m),
                       Y = Point.X point * Vector.Y (X m) + Point.Y point * Vector.Y (Y m)
                             + Point.Z point * Vector.Y (Z m),
                       Z = Point.X point * Vector.Z (X m) + Point.Y point * Vector.Z (Y m)
                             + Point.Z point * Vector.Z (Z m)\<rparr> h')
               [0..<len (Points P)] h1)
            (\<lambda>h2. Inr (new_Polygon \<lparr>Points = newPoints, Color = Polygon.Color P\<rparr> h2)))"

text \<open>\<^verbatim>\<open>func computeCentroid(points []Point) Point\<close>. With no points the three
  quotients are \<^verbatim>\<open>0/0\<close>, a point of NaNs: \<open>None\<close>.\<close>

definition computeCentroid :: "'c Heap \<Rightarrow> Slice \<Rightarrow> Point option" where
  "computeCentroid h points =
     (let n = real (len points);
          (sumX, sumY, sumZ) =
             fold (\<lambda>i (sumX, sumY, sumZ).
                     let p = elem h points i
                     in (sumX + Point.X p, sumY + Point.Y p, sumZ + Point.Z p))
               [0..<len points] (0, 0, 0)
      in if len points = 0 then None
         else Some \<lparr>Point.X = sumX / n, Y = sumY / n, Z = sumZ / n\<rparr>)"

text \<open>\<^verbatim>\<open>func NewPolygon(points []Point, color color.Color) *Polygon\<close>\<close>

definition NewPolygon :: "Slice \<Rightarrow> 'c \<Rightarrow> 'c Heap \<Rightarrow> error + ('c Heap \<times> addr option)" where
  "NewPolygon points color h =
     (if len points < 3 then Inl (Panic ''A polygon must have at least 3 points'')
      else Inr (new_Polygon \<lparr>Points = points, Color = color\<rparr> h))"

text \<open>\<^verbatim>\<open>func euclideanDistance(a, b Point) float64\<close>; \<^verbatim>\<open>math.Pow(x, 2)\<close> is the square.\<close>

definition euclideanDistance :: "Point \<Rightarrow> Point \<Rightarrow> real" where
  "euclideanDistance a b =
     sqrt ((Point.X b - Point.X a)\<^sup>2 + (Point.Y b - Point.Y a)\<^sup>2 + (Point.Z b - Point.Z a)\<^sup>2)"

subsection \<open>The comparator of the depth ordering\<close>

definition Len :: "ByCentroidDistance \<Rightarrow> nat" where
  "Len bd = len (ps bd)"

text \<open>\<^verbatim>\<open>bd.ps[i], bd.ps[j] = bd.ps[j], bd.ps[i]\<close>: both index expressions are checked,
  both elements read, then both written.\<close>

definition Swap :: "ByCentroidDistance \<Rightarrow> nat \<Rightarrow> nat \<Rightarrow> 'c Heap \<Rightarrow> error + 'c Heap" where
  "Swap bd i j h =
     bind_err (index_Set h (ps bd) j) (\<lambda>vj.
     bind_err (index_Set h (ps bd) i) (\<lambda>vi.
     bind_err (store_Set (ps bd) i vj h) (\<lambda>h'.
       store_Set (ps bd) j vi h')))"

text \<open>A comparison with a NaN distance is false.\<close>

definition Less :: "ByCentroidDistance \<Rightarrow> nat \<Rightarrow> nat \<Rightarrow> 'c Heap \<Rightarrow> error + bool" where
  "Less bd i j h =
     bind_err (index_Set h (ps bd) i) (\<lambda>si.
     bind_err (index_Set h (ps bd) j) (\<lambda>sj.
       Inr (case (computeCentroid h si, computeCentroid h sj) of
              (Some centroidI, Some centroidJ) \<Rightarrow>
                 euclideanDistance centroidI (refPoint bd)
                   > euclideanDistance centroidJ (refPoint bd)
            | _ \<Rightarrow> False)))"

subsection \<open>The scene\<close>

definition NewSpace :: Space where
  "NewSpace =
     \<lparr>Matrix = \<lparr>X = \<lparr>Vector.X = 1, Y = 0, Z = 0\<rparr>,
                Y = \<lparr>Vector.X = 0, Y = 1, Z = 0\<rparr>,
                Z = \<lparr>Vector.X = 0, Y = 0, Z = 1\<rparr>\<rparr>,
      Objects = []\<rparr>"

definition Rotate :: "Matrix \<Rightarrow> Space \<Rightarrow> Space" where
  "Rotate rotationMatrix s =
     (let transformedMatrix =
        \<lparr>X = \<lparr>Vector.X = Vector.X (X (Matrix s)) * Vector.X (X rotationMatrix)
                          + Vector.Y (X (Matrix s)) * Vector.X (Y rotationMatrix)
                          + Vector.Z (X (Matrix s)) * Vector.X (Z rotationMatrix),
               Y = Vector.X (X (Matrix s)) * Vector.Y (X rotationMatrix)
                     + Vector.Y (X (Matrix s)) * Vector.Y (Y rotationMatrix)
                     + Vector.Z (X (Matrix s)) * Vector.Y (Z rotationMatrix),
               Z = Vector.X (X (Matrix s)) * Vector.Z (X rotationMatrix)
                     + Vector.Y (X (Matrix s)) * Vector.Z (Y rotationMatrix)
                     + Vector.Z (X (Matrix s)) * Vector.Z (Z rotationMatrix)\<rparr>,
          Y = \<lparr>Vector.X = Vector.X (Y (Matrix s)) * Vector.X (X rotationMatrix)
                          + Vector.Y (Y (Matrix s)) * Vector.X (Y rotationMatrix)
                          + Vector.Z (Y (Matrix s)) * Vector.X (Z rotationMatrix),
               Y = Vector.X (Y (Matrix s)) * Vector.Y (X rotationMatrix)
                     + Vector.Y (Y (Matrix s)) * Vector.Y (Y rotationMatrix)
                     + Vector.Z (Y (Matrix s)) * Vector.Y (Z rotationMatrix),
               Z = Vector.X (Y (Matrix s)) * Vector.Z (X rotationMatrix)
                     + Vector.Y (Y (Matrix s)) * Vector.Z (Y rotationMatrix)
                     + Vector.Z (Y (Matrix s)) * Vector.Z (Z rotationMatrix)\<rparr>,
          Z = \<lparr>Vector.X = Vector.X (Z (Matrix s)) * Vector.X (X rotationMatrix)
                          + Vector.Y (Z (Matrix s)) * Vector.X (Y rotationMatrix)
                          + Vector.Z (Z (Matrix s)) * Vector.X (Z rotationMatrix),
               Y = Vector.X (Z (Matrix s)) * Vector.Y (X rotationMatrix)
                     + Vector.Y (Z (Matrix s)) * Vector.Y (Y rotationMatrix)
                     + Vector.Z (Z (Matrix s)) * Vector.Y (Z rotationMatrix),
               Z = Vector.X (Z (Matrix s)) * Vector.Z (X rotationMatrix)
                     + Vector.Y (Z (Matrix s)) * Vector.Z (Y rotationMatrix)
                     + Vector.Z (Z (Matrix s)) * Vector.Z (Z rotationMatrix)\<rparr>\<rparr>
      in s\<lparr>Matrix := transformedMatrix\<rparr>)"

definition RotateX :: "real \<Rightarrow> Space \<Rightarrow> Space" where
  "RotateX angle s =
     (let rotationMatrix =
        \<lparr>X = \<lparr>Vector.X = 1, Y = 0, Z = 0\<rparr>,
          Y = \<lparr>Vector.X = 0, Y = cos angle, Z = sin angle\<rparr>,
          Z = \<lparr>Vector.X = 0, Y = - sin angle, Z = cos angle\<rparr>\<rparr>
      in Rotate rotationMatrix s)"

definition RotateY :: "real \<Rightarrow> Space \<Rightarrow> Space" where
  "RotateY angle s =
     (let rotationMatrix =
        \<lparr>X = \<lparr>Vector.X = cos angle, Y = 0, Z = - sin angle\<rparr>,
          Y = \<lparr>Vector.X = 0, Y = 1, Z = 0\<rparr>,
          Z = \<lparr>Vector.X = sin angle, Y = 0, Z = cos angle\<rparr>\<rparr>
      in Rotate rotationMatrix s)"

definition RotateZ :: "real \<Rightarrow> Space \<Rightarrow> Space" where
  "RotateZ angle s =
     (let rotationMatrix =
        \<lparr>X = \<lparr>Vector.X = cos angle, Y = sin angle, Z = 0\<rparr>,
          Y = \<lparr>Vector.X = - sin angle, Y = cos angle, Z = 0\<rparr>,
          Z = \<lparr>Vector.X = 0, Y = 0, Z = 1\<rparr>\<rparr>
      in Rotate rotationMatrix s)"

text \<open>\<^verbatim>\<open>s.Objects = append(s.Objects, p)\<close>; the list of pointers is kept as a value.\<close>

definition AddObject :: "addr option \<Rightarrow> Space \<Rightarrow> Space" where
  "AddObject p s = s\<lparr>Objects := Objects s @ [p]\<rparr>"

definition matrixMultiply :: "Matrix \<Rightarrow> Point \<Rightarrow> Point" where
  "matrixMultiply m p =
     \<lparr>Point.X = Point.X p * Vector.X (X m) + Point.Y p * Vector.X (Y m)
                  + Point.Z p * Vector.X (Z m),
      Y = Point.X p * Vector.Y (X m) + Point.Y p * Vector.Y (Y m) + Point.Z p * Vector.Y (Z m),
      Z = Point.X p * Vector.Z (X m) + Point.Y p * Vector.Z (Y m) + Point.Z p * Vector.Z (Z m)\<rparr>"

subsection \<open>Sorting\<close>

text \<open>
  \<^verbatim>\<open>sort.Sort\<close> is the Go standard library's. It reads the data only through
  \<^verbatim>\<open>Len\<close>, \<^verbatim>\<open>Less\<close> and \<^verbatim>\<open>Swap\<close>; it returns at once on at most one element, and on
  up to twelve elements (the scene of \<^verbatim>\<open>run\<close> has eight) it runs the library's insertion
  sort:
  \<^verbatim>\<open>for i := a + 1; i < b; i++ { for j := i; j > a && data.Less(j, j-1); j-- { data.Swap(j, j-1) } }\<close>
  The model runs this insertion sort on every length.
\<close>

fun insertionSort_inner ::
  "ByCentroidDistance \<Rightarrow> nat \<Rightarrow> nat \<Rightarrow> 'c Heap \<Rightarrow> error + 'c Heap" where
  "insertionSort_inner data a 0 h = Inr h"
| "insertionSort_inner data a (Suc j) h =
     (if Suc j > a
      then bind_err (Less data (Suc j) j h) (\<lambda>lt.
             if lt then bind_err (Swap data (Suc j) j h) (insertionSort_inner data a j)
             else Inr h)
      else Inr h)"

definition insertionSort ::
  "ByCentroidDistance \<Rightarrow> nat \<Rightarrow> nat \<Rightarrow> 'c Heap \<Rightarrow> error + 'c Heap" where
  "insertionSort data a b h = for_each (insertionSort_inner data a) [a + 1..<b] h"

definition sort_Sort :: "ByCentroidDistance \<Rightarrow> 'c Heap \<Rightarrow> error + 'c Heap" where
  "sort_Sort data h =
     (let n = Len data in if n \<le> 1 then Inr h else insertionSort data 0 n h)"

subsection \<open>Drawing a frame\<close>

text \<open>
  \<^verbatim>\<open>func (s *Space) Draw(imd *imdraw.IMDraw, win *pixelgl.Window)\<close>, in three parts:
  the loop that fills the local slice \<^verbatim>\<open>polygons\<close> (\<open>Draw_polygons\<close>), the call of
  \<^verbatim>\<open>sort.Sort\<close> on it (\<open>Draw_sorted\<close>), and the loop that transforms and builds every
  object (\<open>Draw_objects\<close>). \<open>Draw_polygons\<close> and \<open>Draw_sorted\<close> return the header
  of \<^verbatim>\<open>polygons\<close> with the store, so that the local slice can be looked at;
  \<open>Draw\<close> drops it, as the code does. \<open>Draw\<close> returns the scene, the surface and
  the store as they are when the call returns.
\<close>

definition Draw_polygons :: "Space \<Rightarrow> 'c Heap \<Rightarrow> error + ('c Heap \<times> Slice)" where
  "Draw_polygons s h =
     (let (h0, polygons) = make_Sets (length (Objects s)) h
      in bind_err
           (for_each (\<lambda>(i, obj) h'.
                let (h1, points) = make_Points 3 h'
                in bind_err (deref h1 obj) (\<lambda>P.
                     let (h2, points') =
                           fold (\<lambda>k (hh, pts).
                                   append_Point pts
                                     (matrixMultiply (Matrix s) (elem hh (Points P) k)) hh)
                             [0..<len (Points P)] (h1, points)
                     in store_Set polygons i points' h2))
              (enumerate 0 (Objects s)) h0)
           (\<lambda>h3. Inr (h3, polygons)))"

definition Draw_sorted :: "Space \<Rightarrow> 'c Heap \<Rightarrow> error + ('c Heap \<times> Slice)" where
  "Draw_sorted s h =
     (let referencePoint = \<lparr>Point.X = 0, Y = 0, Z = 200\<rparr>
      in bind_err (Draw_polygons s h) (\<lambda>(h1, polygons).
         bind_err (sort_Sort \<lparr>ps = polygons, refPoint = referencePoint\<rparr> h1) (\<lambda>h2.
           Inr (h2, polygons))))"

definition Draw_objects ::
  "Space \<Rightarrow> 'c IMDraw \<Rightarrow> 'c Heap \<Rightarrow> error + ('c IMDraw \<times> 'c Heap)" where
  "Draw_objects s imd h =
     for_each (\<lambda>obj (imd', h').
         bind_err (Transform obj (Matrix s) h') (\<lambda>(h'', newObj).
         bind_err (build newObj imd' h'') (\<lambda>imd''.
           Inr (imd'', h''))))
       (Objects s) (imd, h)"

definition Draw ::
  "Space \<Rightarrow> 'c IMDraw \<Rightarrow> 'c Heap \<Rightarrow> error + (Space \<times> 'c IMDraw \<times> 'c Heap)" where
  "Draw s imd h =
     bind_err (Draw_sorted s h) (\<lambda>(h2, polygons).
     bind_err (Draw_objects s imd h2) (\<lambda>(imd3, h3).
       Inr (s, imd3, h3)))"

subsection \<open>Reference notions for the statements\<close>

text \<open>
  The matrix product by entries, as linear algebra defines it: entry \<open>(i, j)\<close> of
  \<open>a \<times> b\<close> is row \<open>i\<close> of \<open>a\<close> against column \<open>j\<close> of \<open>b\<close>. Rows are the three
  \<^verbatim>\<open>Vector\<close> fields of a \<^verbatim>\<open>Matrix\<close>, numbered from 0.
\<close>

definition row :: "Matrix \<Rightarrow> nat \<Rightarrow> Vector" where
  "row m i = (if i = 0 then X m else if i = 1 then Y m else Z m)"

definition coord :: "Vector \<Rightarrow> nat \<Rightarrow> real" where
  "coord v j = (if j = 0 then Vector.X v else if j = 1 then Vector.Y v else Vector.Z v)"

definition entry :: "Matrix \<Rightarrow> nat \<Rightarrow> nat \<Rightarrow> real" where
  "entry m i j = coord (row m i) j"

definition matrix_of :: "(nat \<Rightarrow> nat \<Rightarrow> real) \<Rightarrow> Matrix" where
  "matrix_of e =
     \<lparr>X = \<lparr>Vector.X = e 0 0, Y = e 0 1, Z = e 0 2\<rparr>,
      Y = \<lparr>Vector.X = e 1 0, Y = e 1 1, Z = e 1 2\<rparr>,
      Z = \<lparr>Vector.X = e 2 0, Y = e 2 1, Z = e 2 2\<rparr>\<rparr>"

definition matrix_product :: "Matrix \<Rightarrow> Matrix \<Rightarrow> Matrix" where
  "matrix_product a b = matrix_of (\<lambda>i j. \<Sum>k<3. entry a i k * entry b k j)"

text \<open>A row of a matrix read as a point, and a matrix written by its rows.\<close>

definition as_Point :: "Vector \<Rightarrow> Point" where
  "as_Point v = \<lparr>Point.X = Vector.X v, Y = Vector.Y v, Z = Vector.Z v\<rparr>"

definition vector_of :: "real list \<Rightarrow> Vector" where
  "vector_of xs = \<lparr>Vector.X = xs ! 0, Y = xs ! 1, Z = xs ! 2\<rparr>"

definition of_rows :: "real list \<Rightarrow> real list \<Rightarrow> real list \<Rightarrow> Matrix" where
  "of_rows r0 r1 r2 = \<lparr>X = vector_of r0, Y = vector_of r1, Z = vector_of r2\<rparr>"

text \<open>
  What a call leaves alone. Allocation only appends to the three stores, so everything
  allocated in \<open>h\<close> is unchanged in \<open>h'\<close> exactly when each store of \<open>h\<close> is a prefix
  of the store of \<open>h'\<close>.
\<close>

definition heap_preserved :: "'c Heap \<Rightarrow> 'c Heap \<Rightarrow> bool" where
  "heap_preserved h h' \<longleftrightarrow>
     prefix (point_arrays h) (point_arrays h')
     \<and> prefix (set_arrays h) (set_arrays h')
     \<and> prefix (polygon_objs h) (polygon_objs h')"

text \<open>A slice header that Go can hold: within its capacity, and its capacity within an
  allocated array (a slice of capacity 0, such as the nil slice, needs no array).\<close>

definition wf_Points :: "'c Heap \<Rightarrow> Slice \<Rightarrow> bool" where
  "wf_Points h s \<longleftrightarrow>
     len s \<le> cap s
     \<and> (cap s = 0
        \<or> (array s < length (point_arrays h)
           \<and> off s + cap s \<le> length (point_arrays h ! array s)))"

text \<open>An object of the scene that can be drawn: a pointer to an allocated polygon with
  a well-formed, non-empty slice of points.\<close>

definition valid_object :: "'c Heap \<Rightarrow> addr option \<Rightarrow> bool" where
  "valid_object h obj =
     (case deref h obj of
        Inl e \<Rightarrow> False
      | Inr P \<Rightarrow> wf_Points h (Points P) \<and> 0 < len (Points P))"

text \<open>The calls that draw the closed outline of a sequence of points in one colour:
  a vertex \<open>(X, Y)\<close> for every point in order, the first point once more, the polygon
  with line width 1, and the draw.\<close>

definition outline :: "'c \<Rightarrow> Point list \<Rightarrow> 'c call list" where
  "outline c pts =
     map (\<lambda>pt. PushCall (V (Point.X pt) (Point.Y pt)) c) pts
     @ [PushCall (V (Point.X (hd pts)) (Point.Y (hd pts))) c, PolygonCall 1, DrawCall]"

fun is_PushCall :: "'c call \<Rightarrow> bool" where
  "is_PushCall (PushCall v c) = True"
| "is_PushCall (PolygonCall w) = False"
| "is_PushCall DrawCall = False"

text \<open>The outline of an object of the scene under a matrix.\<close>

definition object_calls :: "'c Heap \<Rightarrow> Matrix \<Rightarrow> addr option \<Rightarrow> 'c call list" where
  "object_calls h m obj =
     (case deref h obj of
        Inl e \<Rightarrow> []
      | Inr P \<Rightarrow> outline (Polygon.Color P) (map (matrixMultiply m) (elems h (Points P))))"

text \<open>The point sets that the local slice \<^verbatim>\<open>polygons\<close> of \<^verbatim>\<open>Draw\<close> holds, in order.\<close>

definition point_sets :: "'c Heap \<times> Slice \<Rightarrow> Point list list" where
  "point_sets r =
     (case r of (h, polygons) \<Rightarrow>
        map (\<lambda>i. elems h (set_arrays h ! array polygons ! (off polygons + i)))
          [0..<len polygons])"

text \<open>The centroids that \<^verbatim>\<open>computeCentroid\<close> returns for these point sets, in order.\<close>

definition set_centroids :: "'c Heap \<times> Slice \<Rightarrow> Point option list" where
  "set_centroids r =
     (case r of (h, polygons) \<Rightarrow>
        map (\<lambda>i. computeCentroid h (set_arrays h ! array polygons ! (off polygons + i)))
          [0..<len polygons])"

subsection \<open>Auxiliary notions for the proofs\<close>

text \<open>The body of the loop of \<open>Draw_polygons\<close>, under a name.\<close>

definition polygons_body ::
  "Matrix \<Rightarrow> Slice \<Rightarrow> nat \<times> addr option \<Rightarrow> 'c Heap \<Rightarrow> error + 'c Heap" where
  "polygons_body M polygons = (\<lambda>(i, obj) h'.
                let (h1, points) = make_Points 3 h'
                in bind_err (deref h1 obj) (\<lambda>P.
                     let (h2, points') =
                           fold (\<lambda>k (hh, pts).
                                   append_Point pts
                                     (matrixMultiply M (elem hh (Points P) k)) hh)
                             [0..<len (Points P)] (h1, points)
                     in store_Set polygons i points' h2))"

text \<open>A slice header whose capacity lies within an allocated array.\<close>

definition backed :: "'c Heap \<Rightarrow> Slice \<Rightarrow> bool" where
  "backed h s \<longleftrightarrow>
     array s < length (point_arrays h)
     \<and> off s + cap s \<le> length (point_arrays h ! array s)
     \<and> len s \<le> cap s"

text \<open>The colour that the surface holds after a list of objects has been drawn: the
  colour of the last one.\<close>

definition final_Color :: "'c Heap \<Rightarrow> addr option list \<Rightarrow> 'c \<Rightarrow> 'c" where
  "final_Color h objs c =
     fold (\<lambda>obj c'. case deref h obj of Inl e \<Rightarrow> c' | Inr P \<Rightarrow> Polygon.Color P) objs c"

text \<open>The centroid of a sequence of points as the spec defines it, the arithmetic mean of
  each coordinate, and the points of an object of the scene under a matrix.\<close>

definition mean_point :: "Point list \<Rightarrow> Point" where
  "mean_point pts =
     \<lparr>Point.X = sum_list (map Point.X pts) / real (length pts),
      Y = sum_list (map Point.Y pts) / real (length pts),
      Z = sum_list (map Point.Z pts) / real (length pts)\<rparr>"

definition transformed_points :: "'c Heap \<Rightarrow> Matrix \<Rightarrow> addr option \<Rightarrow> Point list" where
  "transformed_points h m obj =
     (case deref h obj of
        Inl e \<Rightarrow> []
      | Inr P \<Rightarrow> map (matrixMultiply m) (elems h (Points P)))"

subsection \<open>An example scene\<close>

text \<open>
  Two triangles parallel to the XY plane, the first at \<open>Z = 300\<close> and the second at
  \<open>Z = 150\<close>, both with centroid on the Z axis; the scene holds them in this order
  under the identity matrix. \<open>quarter_turn\<close> is the rotation by a right angle about Z.
\<close>

definition example_heap :: "string Heap" where
  "example_heap =
     \<lparr>point_arrays =
        [[\<lparr>Point.X = - 30, Y = - 30, Z = 300\<rparr>, \<lparr>Point.X = 30, Y = - 30, Z = 300\<rparr>,
          \<lparr>Point.X = 0, Y = 60, Z = 300\<rparr>],
         [\<lparr>Point.X = - 30, Y = - 30, Z = 150\<rparr>, \<lparr>Point.X = 30, Y = - 30, Z = 150\<rparr>,
          \<lparr>Point.X = 0, Y = 60, Z = 150\<rparr>]],
      set_arrays = [],
      polygon_objs =
        [\<lparr>Points = \<lparr>array = 0, off = 0, len = 3, cap = 3\<rparr>, Color = ''red''\<rparr>,
         \<lparr>Points = \<lparr>array = 1, off = 0, len = 3, cap = 3\<rparr>, Color = ''blue''\<rparr>]\<rparr>"

definition example_scene :: Space where
  "example_scene = AddObject (Some 1) (AddObject (Some 0) NewSpace)"

definition example_surface :: "string IMDraw" where
  "example_surface = \<lparr>Color = ''white'', calls = []\<rparr>"

definition quarter_turn :: Matrix where
  "quarter_turn = of_rows [0, 1, 0] [- 1, 0, 0] [0, 0, 1]"

section \<open>Properties\<close>

subsection \<open>Sequencing and loops\<close>

lemma bind_err_Inr [simp]: "bind_err (Inr x) f = f x"
  by (simp add: bind_err_def)

lemma bind_err_Inl [simp]: "bind_err (Inl e) f = Inl e"
  by (simp add: bind_err_def)

lemma bind_err_eq_Inr: "bind_err r f = Inr y \<longleftrightarrow> (\<exists>x. r = Inr x \<and> f x = Inr y)"
  by (cases r) simp_all

lemma for_each_append:
  "for_each body (xs @ ys) s = bind_err (for_each body xs s) (for_each body ys)"
  by (induction xs arbitrary: s) (simp_all add: bind_err_def split: sum.splits)

lemma for_each_invariant:
  assumes "for_each body xs s = Inr s'" and "I s"
    and "\<And>x t t'. x \<in> set xs \<Longrightarrow> I t \<Longrightarrow> body x t = Inr t' \<Longrightarrow> I t'"
  shows "I s'"
  using assms
proof (induction xs arbitrary: s)
  case Nil
  then show ?case by simp
next
  case (Cons x xs)
  from Cons.prems(1) obtain t where t: "body x s = Inr t" and r: "for_each body xs t = Inr s'"
    by (auto simp: bind_err_eq_Inr)
  have "I t" using Cons.prems(3) [of x s t] Cons.prems(2) t by simp
  moreover have "\<And>y u u'. y \<in> set xs \<Longrightarrow> I u \<Longrightarrow> body y u = Inr u' \<Longrightarrow> I u'"
    by (rule Cons.prems(3)) simp_all
  ultimately show ?case using Cons.IH [OF r] by blast
qed

lemma for_each_total:
  assumes "I s"
    and "\<And>x t. x \<in> set xs \<Longrightarrow> I t \<Longrightarrow> \<exists>t'. body x t = Inr t' \<and> I t'"
  shows "\<exists>s'. for_each body xs s = Inr s' \<and> I s'"
  using assms
proof (induction xs arbitrary: s)
  case Nil
  then show ?case by simp
next
  case (Cons x xs)
  from Cons.prems obtain t where t: "body x s = Inr t" "I t" by fastforce
  from Cons.IH [OF t(2)] Cons.prems(2) obtain s' where "for_each body xs t = Inr s'" "I s'"
    by auto
  then show ?case using t by simp
qed

subsection \<open>What a call leaves alone\<close>

lemma prefix_list_update:
  "prefix xs ys \<Longrightarrow> length xs \<le> i \<Longrightarrow> prefix xs (ys[i := v])"
  by (auto simp: prefix_def list_update_append)

lemma heap_preserved_refl [simp]: "heap_preserved h h"
  by (simp add: heap_preserved_def)

lemma heap_preserved_trans:
  "heap_preserved h h' \<Longrightarrow> heap_preserved h' h'' \<Longrightarrow> heap_preserved h h''"
  unfolding heap_preserved_def by (meson prefix_order.trans)

lemma make_Points_preserved:
  "make_Points n h = (h', s) \<Longrightarrow> heap_preserved h h' \<and> array s = length (point_arrays h)"
  by (auto simp: make_Points_def heap_preserved_def)

lemma make_Sets_preserved:
  "make_Sets n h = (h', s) \<Longrightarrow>
     heap_preserved h h' \<and> array s = length (set_arrays h) \<and> len s = n
     \<and> polygon_objs h' = polygon_objs h"
  by (auto simp: make_Sets_def heap_preserved_def)

lemma new_Polygon_preserved:
  "new_Polygon P h = (h', q) \<Longrightarrow> heap_preserved h h'"
  by (auto simp: new_Polygon_def heap_preserved_def)

lemma store_Point_preserved:
  "store_Point s i v h = Inr h' \<Longrightarrow> heap_preserved h0 h \<Longrightarrow>
     length (point_arrays h0) \<le> array s \<Longrightarrow> heap_preserved h0 h'"
  by (auto simp: store_Point_def heap_preserved_def prefix_list_update split: if_splits)

lemma store_Set_preserved:
  "store_Set s i v h = Inr h' \<Longrightarrow> heap_preserved h0 h \<Longrightarrow>
     length (set_arrays h0) \<le> array s \<Longrightarrow> heap_preserved h0 h'"
  by (auto simp: store_Set_def heap_preserved_def prefix_list_update split: if_splits)

lemma append_Point_preserved:
  "append_Point s v h = (h', s') \<Longrightarrow> heap_preserved h0 h \<Longrightarrow>
     length (point_arrays h0) \<le> array s \<Longrightarrow>
     heap_preserved h0 h' \<and> length (point_arrays h0) \<le> array s'"
  by (auto simp: append_Point_def heap_preserved_def prefix_list_update Let_def
        prefix_length_le
      split: if_splits intro: prefix_order.trans)

lemma Swap_preserved:
  "Swap bd i j h = Inr h' \<Longrightarrow> heap_preserved h0 h \<Longrightarrow>
     length (set_arrays h0) \<le> array (ps bd) \<Longrightarrow> heap_preserved h0 h'"
  by (auto simp: Swap_def bind_err_eq_Inr dest: store_Set_preserved)

lemma prefix_nth: "prefix xs ys \<Longrightarrow> i < length xs \<Longrightarrow> ys ! i = xs ! i"
  by (auto simp: prefix_def nth_append)

lemma deref_preserved:
  "heap_preserved h h' \<Longrightarrow> deref h p = Inr P \<Longrightarrow> deref h' p = Inr P"
  by (cases p)
     (auto simp: deref_def heap_preserved_def prefix_nth split: if_splits
           dest: prefix_length_le)

lemma elem_preserved:
  assumes "heap_preserved h h'" and "array S < length (point_arrays h)"
  shows "elem h' S i = elem h S i"
proof -
  have "point_arrays h' ! array S = point_arrays h ! array S"
    by (rule prefix_nth) (use assms in \<open>simp_all add: heap_preserved_def\<close>)
  then show ?thesis by (simp add: elem_def)
qed

lemma elems_preserved:
  "heap_preserved h h' \<Longrightarrow> array S < length (point_arrays h) \<Longrightarrow> elems h' S = elems h S"
  by (simp add: elems_def elem_preserved)

lemma heap_preserved_lengths:
  "heap_preserved h h' \<Longrightarrow>
     length (point_arrays h) \<le> length (point_arrays h')
     \<and> length (set_arrays h) \<le> length (set_arrays h')
     \<and> length (polygon_objs h) \<le> length (polygon_objs h')"
  by (simp add: heap_preserved_def prefix_length_le)

subsection \<open>The example scene\<close>

lemma example_elems:
  "elems example_heap \<lparr>array = 0, off = 0, len = 3, cap = 3\<rparr>
     = [\<lparr>Point.X = - 30, Y = - 30, Z = 300\<rparr>, \<lparr>Point.X = 30, Y = - 30, Z = 300\<rparr>,
        \<lparr>Point.X = 0, Y = 60, Z = 300\<rparr>]"
  "elems example_heap \<lparr>array = 1, off = 0, len = 3, cap = 3\<rparr>
     = [\<lparr>Point.X = - 30, Y = - 30, Z = 150\<rparr>, \<lparr>Point.X = 30, Y = - 30, Z = 150\<rparr>,
        \<lparr>Point.X = 0, Y = 60, Z = 150\<rparr>]"
  by (simp_all add: elems_def elem_def example_heap_def upt_rec numeral_3_eq_3)

lemma example_deref:
  "deref example_heap (Some 0)
     = Inr \<lparr>Points = \<lparr>array = 0, off = 0, len = 3, cap = 3\<rparr>, Color = ''red''\<rparr>"
  "deref example_heap (Some 1)
     = Inr \<lparr>Points = \<lparr>array = 1, off = 0, len = 3, cap = 3\<rparr>, Color = ''blue''\<rparr>"
  by (simp_all add: deref_def example_heap_def)

lemmas example_facts =
  example_deref example_elems example_deref [unfolded One_nat_def]
  example_elems [unfolded One_nat_def]

lemma example_valid: "list_all (valid_object example_heap) (Objects example_scene)"
  by (simp add: valid_object_def example_facts wf_Points_def example_scene_def AddObject_def
        NewSpace_def)
     (simp add: example_heap_def)

subsection \<open>Construction of polygons\<close>

text \<open>
  C3. \<^verbatim>\<open>NewPolygon(points, color)\<close> panics (the spec's InvalidGeometry) if and only if
  fewer than 3 points are supplied. With 3 or more points it returns a pointer to a
  polygon whose \<^verbatim>\<open>Points\<close> is the given slice, with the same elements, and whose
  colour is the given colour.
\<close>

theorem NewPolygon_fails_iff_fewer_than_3:
  "(NewPolygon points color h = Inl (Panic ''A polygon must have at least 3 points'')
      \<longleftrightarrow> len points < 3)
   \<and> (isl (NewPolygon points color h) \<longleftrightarrow> len points < 3)
   \<and> (3 \<le> len points \<longrightarrow>
        (\<exists>h' p P. NewPolygon points color h = Inr (h', p) \<and> deref h' p = Inr P
           \<and> Points P = points \<and> elems h' (Points P) = elems h points
           \<and> Polygon.Color P = color \<and> point_arrays h' = point_arrays h))"
  by (simp add: NewPolygon_def new_Polygon_def deref_def elems_def elem_def)

theorem NewPolygon_fails_iff_fewer_than_3_witness:
  "3 \<le> len \<lparr>array = 0, off = 1, len = 3, cap = 4\<rparr>
   \<and> (\<exists>h' p P.
         NewPolygon \<lparr>array = 0, off = 1, len = 3, cap = 4\<rparr> ''red''
           \<lparr>point_arrays = [replicate 5 zeroPoint], set_arrays = [], polygon_objs = []\<rparr>
           = Inr (h', p)
         \<and> deref h' p = Inr P
         \<and> Points P = \<lparr>array = 0, off = 1, len = 3, cap = 4\<rparr>
         \<and> Polygon.Color P = ''red'')
   \<and> NewPolygon \<lparr>array = 0, off = 1, len = 2, cap = 4\<rparr> ''red''
        \<lparr>point_arrays = [replicate 5 zeroPoint], set_arrays = [], polygon_objs = []\<rparr>
        = Inl (Panic ''A polygon must have at least 3 points'')"
  using NewPolygon_fails_iff_fewer_than_3
          [of "\<lparr>array = 0, off = 1, len = 3, cap = 4\<rparr>" "''red''"
              "\<lparr>point_arrays = [replicate 5 zeroPoint], set_arrays = [], polygon_objs = []\<rparr>"]
        NewPolygon_fails_iff_fewer_than_3
          [of "\<lparr>array = 0, off = 1, len = 2, cap = 4\<rparr>" "''red''"
              "\<lparr>point_arrays = [replicate 5 zeroPoint], set_arrays = [], polygon_objs = []\<rparr>"]
  by auto

subsection \<open>Rendering a polygon\<close>

lemma calls_fold_Push:
  "calls (fold (\<lambda>i imd'. imd'\<lparr>Color := c, calls := calls imd' @ [PushCall (f i) c]\<rparr>) js imd)
   = calls imd @ map (\<lambda>i. PushCall (f i) c) js"
  by (induction js arbitrary: imd) simp_all

lemma build_result:
  assumes "deref h p = Inr P" and "0 < len (Points P)"
  shows "build p imd h =
     Inr \<lparr>Color = Polygon.Color P,
          calls = calls imd
            @ map (\<lambda>pt. PushCall (V (Point.X pt) (Point.Y pt)) (Polygon.Color P))
                (elems h (Points P))
            @ [PushCall (V (Point.X (elem h (Points P) 0)) (Point.Y (elem h (Points P) 0)))
                 (Polygon.Color P),
               PolygonCall 1, DrawCall]\<rparr>"
  using assms
  by (simp add: build_def index_Point_def Let_def imd_Draw_def imd_Polygon_def Push_def
        calls_fold_Push elems_def comp_def)

lemma build_empty:
  assumes "deref h p = Inr P" and "len (Points P) = 0"
  shows "build p imd h = Inl IndexOutOfRange"
  using assms by (simp add: build_def index_Point_def Let_def)

lemma hd_elems: "0 < len S \<Longrightarrow> hd (elems h S) = elem h S 0"
  by (simp add: elems_def hd_map upt_conv_Cons)

lemma build_outline:
  assumes "deref h p = Inr P" and "0 < len (Points P)"
  shows "build p imd h =
     Inr \<lparr>Color = Polygon.Color P,
          calls = calls imd @ outline (Polygon.Color P) (elems h (Points P))\<rparr>"
  using build_result [OF assms] assms(2) by (simp add: outline_def hd_elems)

text \<open>
  C7. For a polygon with at least one point, \<^verbatim>\<open>build\<close> pushes every stored point, in
  stored order, as the vertex \<open>(X, Y)\<close> (the Z coordinate is dropped) in the polygon's
  colour, then the first point once more, then calls \<^verbatim>\<open>Polygon(1)\<close> and \<^verbatim>\<open>Draw\<close>;
  these are \<open>len(points) + 1\<close> vertices.
\<close>

theorem build_pushes_closed_outline:
  assumes "deref h p = Inr P" and "0 < len (Points P)"
  shows "build p imd h =
           Inr \<lparr>Color = Polygon.Color P,
                calls = calls imd
                  @ map (\<lambda>pt. PushCall (V (Point.X pt) (Point.Y pt)) (Polygon.Color P))
                      (elems h (Points P))
                  @ [PushCall (V (Point.X (elem h (Points P) 0)) (Point.Y (elem h (Points P) 0)))
                       (Polygon.Color P),
                     PolygonCall 1, DrawCall]\<rparr>
         \<and> (\<exists>imd'. build p imd h = Inr imd'
               \<and> calls imd' = calls imd @ outline (Polygon.Color P) (elems h (Points P))
               \<and> length (filter is_PushCall (outline (Polygon.Color P) (elems h (Points P))))
                   = len (Points P) + 1)"
proof -
  have "length (filter is_PushCall (outline (Polygon.Color P) (elems h (Points P))))
          = len (Points P) + 1"
    by (simp add: outline_def elems_def filter_map comp_def)
  with build_result [OF assms] build_outline [OF assms] show ?thesis by simp
qed

theorem build_pushes_closed_outline_witness:
  "deref example_heap (Some 0)
     = Inr \<lparr>Points = \<lparr>array = 0, off = 0, len = 3, cap = 3\<rparr>, Color = ''red''\<rparr>
   \<and> build (Some 0) example_surface example_heap =
       Inr \<lparr>Color = ''red'',
            calls = [PushCall (- 30, - 30) ''red'', PushCall (30, - 30) ''red'',
                     PushCall (0, 60) ''red'', PushCall (- 30, - 30) ''red'',
                     PolygonCall 1, DrawCall]\<rparr>"
proof -
  have n: "0 < len (Points \<lparr>Points = \<lparr>array = 0, off = 0, len = 3, cap = 3\<rparr>, Color = ''red''\<rparr>)"
    by simp
  have "elem example_heap \<lparr>array = 0, off = 0, len = 3, cap = 3\<rparr> 0
          = \<lparr>Point.X = - 30, Y = - 30, Z = 300\<rparr>"
    by (simp add: elem_def example_heap_def)
  with build_pushes_closed_outline [OF example_deref(1) n, of example_surface]
  show ?thesis
    using example_deref(1) by (simp add: example_elems V_def example_surface_def)
qed

text \<open>
  C10. On a polygon that \<^verbatim>\<open>NewPolygon\<close> returned, which has at least 3 points, the index
  expression \<^verbatim>\<open>p.Points[0]\<close> of \<^verbatim>\<open>build\<close> is in range and \<^verbatim>\<open>build\<close> returns
  without a panic.
\<close>

theorem build_after_NewPolygon_in_bounds:
  assumes "NewPolygon points color h = Inr (h', p)"
  shows "\<exists>P first imd'.
           deref h' p = Inr P \<and> 3 \<le> len (Points P)
           \<and> index_Point h' (Points P) 0 = Inr first
           \<and> build p imd h' = Inr imd'"
proof -
  from assms have n: "3 \<le> len points"
    and h': "h' = h\<lparr>polygon_objs := polygon_objs h @ [\<lparr>Points = points, Color = color\<rparr>]\<rparr>"
    and p: "p = Some (length (polygon_objs h))"
    by (auto simp: NewPolygon_def new_Polygon_def split: if_splits)
  let ?P = "\<lparr>Points = points, Color = color\<rparr>"
  have d: "deref h' p = Inr ?P" by (simp add: h' p deref_def)
  have "0 < len (Points ?P)" using n by simp
  from build_outline [OF d this, of imd] d n show ?thesis
    by (auto simp: index_Point_def)
qed

theorem build_after_NewPolygon_in_bounds_witness:
  "NewPolygon \<lparr>array = 0, off = 0, len = 3, cap = 3\<rparr> ''green'' example_heap
     = Inr (example_heap\<lparr>polygon_objs := polygon_objs example_heap
              @ [\<lparr>Points = \<lparr>array = 0, off = 0, len = 3, cap = 3\<rparr>, Color = ''green''\<rparr>]\<rparr>, Some 2)
   \<and> (\<exists>P first imd'.
         deref (example_heap\<lparr>polygon_objs := polygon_objs example_heap
              @ [\<lparr>Points = \<lparr>array = 0, off = 0, len = 3, cap = 3\<rparr>, Color = ''green''\<rparr>]\<rparr>) (Some 2)
           = Inr P
         \<and> index_Point (example_heap\<lparr>polygon_objs := polygon_objs example_heap
              @ [\<lparr>Points = \<lparr>array = 0, off = 0, len = 3, cap = 3\<rparr>, Color = ''green''\<rparr>]\<rparr>)
             (Points P) 0 = Inr first
         \<and> build (Some 2) example_surface
             (example_heap\<lparr>polygon_objs := polygon_objs example_heap
              @ [\<lparr>Points = \<lparr>array = 0, off = 0, len = 3, cap = 3\<rparr>, Color = ''green''\<rparr>]\<rparr>)
           = Inr imd')"
proof -
  have N: "NewPolygon \<lparr>array = 0, off = 0, len = 3, cap = 3\<rparr> ''green'' example_heap
     = Inr (example_heap\<lparr>polygon_objs := polygon_objs example_heap
              @ [\<lparr>Points = \<lparr>array = 0, off = 0, len = 3, cap = 3\<rparr>, Color = ''green''\<rparr>]\<rparr>, Some 2)"
    by (simp add: NewPolygon_def new_Polygon_def example_heap_def)
  from build_after_NewPolygon_in_bounds [OF N, of example_surface] N show ?thesis
    by blast
qed

subsection \<open>Transforming a polygon\<close>

lemma Transform_alt:
  "Transform p m h =
     bind_err (deref h p) (\<lambda>P.
       let (h1, newPoints) = make_Points (len (Points P)) h
       in bind_err
            (for_each (\<lambda>i h'. store_Point newPoints i (matrixMultiply m (elem h' (Points P) i)) h')
               [0..<len (Points P)] h1)
            (\<lambda>h2. Inr (new_Polygon \<lparr>Points = newPoints, Color = Polygon.Color P\<rparr> h2)))"
  by (simp add: Transform_def matrixMultiply_def Let_def)

lemma store_loop:
  assumes "point_arrays h' = pa @ [arr]" and "array S < length pa" and "\<forall>i\<in>set js. i < n"
  shows "for_each (\<lambda>i h'. store_Point \<lparr>array = length pa, off = 0, len = n, cap = n\<rparr> i
                             (g (elem h' S i)) h') js h'
         = Inr (h'\<lparr>point_arrays :=
                     pa @ [fold (\<lambda>i a. a[i := g (pa ! array S ! (off S + i))]) js arr]\<rparr>)"
  using assms
proof (induction js arbitrary: h' arr)
  case Nil
  then show ?case by simp
next
  case (Cons j js)
  let ?h = "h'\<lparr>point_arrays := pa @ [arr[j := g (pa ! array S ! (off S + j))]]\<rparr>"
  have step: "store_Point \<lparr>array = length pa, off = 0, len = n, cap = n\<rparr> j (g (elem h' S j)) h'
                = Inr ?h"
    using Cons.prems by (simp add: store_Point_def elem_def nth_append)
  have "point_arrays ?h = pa @ [arr[j := g (pa ! array S ! (off S + j))]]" by simp
  from Cons.IH [OF this Cons.prems(2)] Cons.prems(3) step
  show ?case by simp
qed

lemma fold_update_upt_aux:
  "k \<le> length arr \<Longrightarrow> fold (\<lambda>i a. a[i := G i]) [0..<k] arr = map G [0..<k] @ drop k arr"
proof (induction k)
  case 0
  then show ?case by simp
next
  case (Suc k)
  then have "k < length arr" by simp
  then have "drop k arr = arr ! k # drop (Suc k) arr"
    by (simp add: Cons_nth_drop_Suc)
  with Suc show ?case by (simp add: list_update_append)
qed

lemma fold_update_upt:
  "length arr = n \<Longrightarrow> fold (\<lambda>i a. a[i := G i]) [0..<n] arr = map G [0..<n]"
  using fold_update_upt_aux [of n arr G] by simp

lemma Transform_result:
  assumes "deref h p = Inr P"
    and "len (Points P) = 0 \<or> array (Points P) < length (point_arrays h)"
  shows "Transform p m h =
     Inr (h\<lparr>point_arrays := point_arrays h @ [map (matrixMultiply m) (elems h (Points P))],
            polygon_objs := polygon_objs h @
              [\<lparr>Points = \<lparr>array = length (point_arrays h), off = 0, len = len (Points P),
                           cap = len (Points P)\<rparr>,
                Color = Polygon.Color P\<rparr>]\<rparr>,
          Some (length (polygon_objs h)))"
proof (cases "len (Points P) = 0")
  case True
  then show ?thesis using assms(1)
    by (simp add: Transform_alt make_Points_def new_Polygon_def elems_def)
next
  case False
  with assms(2) have a: "array (Points P) < length (point_arrays h)" by simp
  let ?n = "len (Points P)"
  let ?h1 = "h\<lparr>point_arrays := point_arrays h @ [replicate ?n zeroPoint]\<rparr>"
  have "for_each (\<lambda>i h'. store_Point \<lparr>array = length (point_arrays h), off = 0, len = ?n, cap = ?n\<rparr> i
                             (matrixMultiply m (elem h' (Points P) i)) h') [0..<?n] ?h1
         = Inr (?h1\<lparr>point_arrays := point_arrays h @
                   [fold (\<lambda>i a. a[i := matrixMultiply m (point_arrays h ! array (Points P) ! (off (Points P) + i))])
                      [0..<?n] (replicate ?n zeroPoint)]\<rparr>)"
    by (rule store_loop) (use a in simp_all)
  then show ?thesis using assms(1)
    by (simp add: Transform_alt make_Points_def new_Polygon_def elems_def elem_def
          fold_update_upt)
qed

lemma Transform_preserved:
  assumes "Transform p m h = Inr (h', q)"
  shows "heap_preserved h h'"
proof -
  from assms obtain P where P: "deref h p = Inr P"
    by (auto simp: Transform_alt bind_err_eq_Inr)
  obtain h1 newPoints where mk: "make_Points (len (Points P)) h = (h1, newPoints)"
    by (cases "make_Points (len (Points P)) h")
  from assms P mk obtain h2 where
    loop: "for_each (\<lambda>i h'. store_Point newPoints i (matrixMultiply m (elem h' (Points P) i)) h')
                 [0..<len (Points P)] h1 = Inr h2"
    and new: "new_Polygon \<lparr>Points = newPoints, Color = Polygon.Color P\<rparr> h2 = (h', q)"
    by (auto simp: Transform_alt bind_err_eq_Inr)
  from mk have h1: "heap_preserved h h1" and fresh: "array newPoints = length (point_arrays h)"
    using make_Points_preserved by blast+
  have "heap_preserved h h2"
    by (rule for_each_invariant [where I = "heap_preserved h", OF loop h1])
       (use fresh in \<open>auto dest: store_Point_preserved\<close>)
  with new show ?thesis
    by (meson heap_preserved_trans new_Polygon_preserved)
qed

lemma valid_objectD:
  assumes "valid_object h obj"
  obtains P where "deref h obj = Inr P" and "wf_Points h (Points P)" and "0 < len (Points P)"
    and "array (Points P) < length (point_arrays h)"
  using assms
  by (cases "deref h obj") (auto simp: valid_object_def wf_Points_def)

lemma wf_Points_elems_preserved:
  assumes "heap_preserved h h'" and "wf_Points h S"
  shows "elems h' S = elems h S"
proof (cases "cap S = 0")
  case True
  with assms(2) show ?thesis by (simp add: wf_Points_def elems_def)
next
  case False
  with assms show ?thesis by (simp add: wf_Points_def elems_preserved)
qed

text \<open>
  C6. For a polygon \<open>P\<close> with a well-formed slice of points and a matrix \<open>m\<close>,
  \<^verbatim>\<open>P.Transform(m)\<close> returns a pointer to a new polygon whose points are, in order, the
  row-vector products of the points of \<open>P\<close> with \<open>m\<close> (\<^verbatim>\<open>matrixMultiply\<close>) and whose
  colour is that of \<open>P\<close>. Everything allocated before the call is unchanged after it: in
  particular \<open>P\<close> is the same struct, with the same points.
\<close>

theorem Transform_returns_new_polygon:
  assumes "deref h p = Inr P" and "wf_Points h (Points P)"
  shows "\<exists>h' q Q.
           Transform p m h = Inr (h', q) \<and> deref h' q = Inr Q \<and> q \<noteq> p
           \<and> elems h' (Points Q) = map (matrixMultiply m) (elems h (Points P))
           \<and> Polygon.Color Q = Polygon.Color P
           \<and> heap_preserved h h'
           \<and> deref h' p = Inr P
           \<and> elems h' (Points P) = elems h (Points P)"
proof -
  from assms(2) have a: "len (Points P) = 0 \<or> array (Points P) < length (point_arrays h)"
    by (auto simp: wf_Points_def)
  let ?N = "\<lparr>array = length (point_arrays h), off = 0, len = len (Points P),
             cap = len (Points P)\<rparr>"
  let ?Q = "\<lparr>Points = ?N, Color = Polygon.Color P\<rparr>"
  let ?h = "h\<lparr>point_arrays := point_arrays h @ [map (matrixMultiply m) (elems h (Points P))],
              polygon_objs := polygon_objs h @ [?Q]\<rparr>"
  let ?q = "Some (length (polygon_objs h))"
  have T: "Transform p m h = Inr (?h, ?q)"
    by (rule Transform_result [OF assms(1) a])
  then have pres: "heap_preserved h ?h" by (rule Transform_preserved)
  have Q: "deref ?h ?q = Inr ?Q" by (simp add: deref_def)
  have ne: "?q \<noteq> p" using assms(1) by (auto simp: deref_def split: if_splits)
  have e: "elems ?h (Points ?Q) = map (matrixMultiply m) (elems h (Points P))"
    by (simp add: elems_def elem_def nth_append)
  from T Q ne e pres deref_preserved [OF pres assms(1)]
    wf_Points_elems_preserved [OF pres assms(2)]
  show ?thesis by (intro exI [of _ ?h] exI [of _ ?q] exI [of _ ?Q]) simp
qed

theorem Transform_returns_new_polygon_witness:
  "deref example_heap (Some 0)
     = Inr \<lparr>Points = \<lparr>array = 0, off = 0, len = 3, cap = 3\<rparr>, Color = ''red''\<rparr>
   \<and> wf_Points example_heap \<lparr>array = 0, off = 0, len = 3, cap = 3\<rparr>
   \<and> (\<exists>h' q Q.
         Transform (Some 0) quarter_turn example_heap = Inr (h', q) \<and> deref h' q = Inr Q
         \<and> elems h' (Points Q)
             = [\<lparr>Point.X = 30, Y = - 30, Z = 300\<rparr>, \<lparr>Point.X = 30, Y = 30, Z = 300\<rparr>,
                \<lparr>Point.X = - 60, Y = 0, Z = 300\<rparr>]
         \<and> Polygon.Color Q = ''red''
         \<and> elems h' \<lparr>array = 0, off = 0, len = 3, cap = 3\<rparr>
             = [\<lparr>Point.X = - 30, Y = - 30, Z = 300\<rparr>, \<lparr>Point.X = 30, Y = - 30, Z = 300\<rparr>,
                \<lparr>Point.X = 0, Y = 60, Z = 300\<rparr>])"
proof -
  have w: "wf_Points example_heap
             (Points \<lparr>Points = \<lparr>array = 0, off = 0, len = 3, cap = 3\<rparr>, Color = ''red''\<rparr>)"
    by (simp add: wf_Points_def example_heap_def)
  from Transform_returns_new_polygon [OF example_deref(1) w, of quarter_turn]
  show ?thesis
    using example_deref(1) w
    by (auto simp: example_elems matrixMultiply_def quarter_turn_def of_rows_def vector_of_def)
qed

subsection \<open>Rotations\<close>

text \<open>
  C4. \<^verbatim>\<open>Rotate(D)\<close> on a scene with matrix \<open>M\<close> stores the matrix product \<open>M \<times> D\<close>, in
  this order: every row of the result is the corresponding row of \<open>M\<close>, read as a row
  vector, multiplied by \<open>D\<close> as \<^verbatim>\<open>matrixMultiply\<close> does for points. The list of
  objects is not touched.
\<close>

theorem Rotate_is_matrix_product:
  "Matrix (Rotate D s) = matrix_product (Matrix s) D
   \<and> as_Point (X (Matrix (Rotate D s))) = matrixMultiply D (as_Point (X (Matrix s)))
   \<and> as_Point (Y (Matrix (Rotate D s))) = matrixMultiply D (as_Point (Y (Matrix s)))
   \<and> as_Point (Z (Matrix (Rotate D s))) = matrixMultiply D (as_Point (Z (Matrix s)))
   \<and> Objects (Rotate D s) = Objects s"
  by (simp add: Rotate_def matrix_product_def matrix_of_def entry_def row_def coord_def
        as_Point_def matrixMultiply_def lessThan_Suc numeral_3_eq_3)

text \<open>
  C5. \<^verbatim>\<open>RotateX\<close>, \<^verbatim>\<open>RotateY\<close> and \<^verbatim>\<open>RotateZ\<close> compose into the scene, through
  \<^verbatim>\<open>Rotate\<close>, the matrices with rows
  X: \<open>[1,0,0], [0,cos \<theta>,sin \<theta>], [0,-sin \<theta>,cos \<theta>]\<close>;
  Y: \<open>[cos \<theta>,0,-sin \<theta>], [0,1,0], [sin \<theta>,0,cos \<theta>]\<close>;
  Z: \<open>[cos \<theta>,sin \<theta>,0], [-sin \<theta>,cos \<theta>,0], [0,0,1]\<close>.
\<close>

theorem RotateXYZ_matrices:
  "RotateX \<theta> s = Rotate (of_rows [1, 0, 0] [0, cos \<theta>, sin \<theta>] [0, - sin \<theta>, cos \<theta>]) s
   \<and> RotateY \<theta> s = Rotate (of_rows [cos \<theta>, 0, - sin \<theta>] [0, 1, 0] [sin \<theta>, 0, cos \<theta>]) s
   \<and> RotateZ \<theta> s = Rotate (of_rows [cos \<theta>, sin \<theta>, 0] [- sin \<theta>, cos \<theta>, 0] [0, 0, 1]) s"
  by (simp add: RotateX_def RotateY_def RotateZ_def of_rows_def vector_of_def)

text \<open>
  C8. A rotation by the angle 0 about any of the three axes leaves the scene, and so
  its stored matrix, unchanged.
\<close>

theorem Rotate_zero_angle_noop:
  "RotateX 0 s = s \<and> RotateY 0 s = s \<and> RotateZ 0 s = s
   \<and> Matrix (RotateX 0 s) = Matrix s \<and> Matrix (RotateY 0 s) = Matrix s
   \<and> Matrix (RotateZ 0 s) = Matrix s"
  by (simp add: RotateX_def RotateY_def RotateZ_def Rotate_def)

subsection \<open>The depth-ordering pass\<close>

lemma fold_append_preserved:
  "fold (\<lambda>k (hh, pts). append_Point pts (g hh k) hh) ks (h1, pts) = (h2, pts') \<Longrightarrow>
     heap_preserved h0 h1 \<Longrightarrow> length (point_arrays h0) \<le> array pts \<Longrightarrow>
     heap_preserved h0 h2 \<and> length (point_arrays h0) \<le> array pts'"
proof (induction ks arbitrary: h1 pts)
  case Nil
  then show ?case by simp
next
  case (Cons k ks)
  obtain h1' pts1 where a: "append_Point pts (g h1 k) h1 = (h1', pts1)"
    by (cases "append_Point pts (g h1 k) h1")
  from append_Point_preserved [OF a Cons.prems(2,3)]
  have 1: "heap_preserved h0 h1'" and 2: "length (point_arrays h0) \<le> array pts1"
    by simp_all
  from Cons.prems(1) a
  have "fold (\<lambda>k (hh, pts). append_Point pts (g hh k) hh) ks (h1', pts1) = (h2, pts')"
    by simp
  from Cons.IH [OF this 1 2] show ?case .
qed

lemma Draw_polygons_alt:
  "Draw_polygons s h =
     (let (h0, polygons) = make_Sets (length (Objects s)) h
      in bind_err (for_each (polygons_body (Matrix s) polygons) (enumerate 0 (Objects s)) h0)
           (\<lambda>h3. Inr (h3, polygons)))"
  by (simp add: Draw_polygons_def polygons_body_def)

lemma polygons_body_preserved:
  assumes "polygons_body M polygons x t = Inr t'" and "heap_preserved h t"
    and "length (set_arrays h) \<le> array polygons"
  shows "heap_preserved h t'"
proof -
  obtain i obj where x: "x = (i, obj)" by (cases x)
  obtain h1 points where mk: "make_Points 3 t = (h1, points)" by (cases "make_Points 3 t")
  from assms(1) x mk obtain P where P: "deref h1 obj = Inr P"
    by (auto simp: polygons_body_def bind_err_eq_Inr)
  let ?f = "fold (\<lambda>k (hh, pts). append_Point pts (matrixMultiply M (elem hh (Points P) k)) hh)
              [0..<len (Points P)] (h1, points)"
  obtain h2 points' where f: "?f = (h2, points')" by (cases ?f)
  from assms(1) x mk P f have st: "store_Set polygons i points' h2 = Inr t'"
    by (simp add: polygons_body_def)
  from mk have "heap_preserved t h1" "array points = length (point_arrays t)"
    using make_Points_preserved by blast+
  with assms(2) have 1: "heap_preserved h h1" "length (point_arrays h) \<le> array points"
    using heap_preserved_trans heap_preserved_lengths by fastforce+
  from fold_append_preserved [OF f 1] have "heap_preserved h h2" by simp
  from store_Set_preserved [OF st this assms(3)] show ?thesis .
qed

lemma polygons_body_total:
  assumes "deref h obj = Inr P" and "heap_preserved h t" and "i < len polygons"
  shows "\<exists>t'. polygons_body M polygons (i, obj) t = Inr t'"
proof -
  obtain h1 points where mk: "make_Points 3 t = (h1, points)" by (cases "make_Points 3 t")
  then have "heap_preserved t h1" using make_Points_preserved by blast
  with assms(2) have "heap_preserved h h1" using heap_preserved_trans by blast
  with assms(1) have P: "deref h1 obj = Inr P" using deref_preserved by blast
  show ?thesis using mk P assms(3)
    by (simp add: polygons_body_def store_Set_def split: prod.splits)
qed

lemma Draw_polygons_preserved:
  assumes "Draw_polygons s h = Inr (h', polygons)"
  shows "heap_preserved h h' \<and> array polygons = length (set_arrays h)
         \<and> off polygons = 0 \<and> len polygons = length (Objects s)"
proof -
  obtain h0 pol where mk: "make_Sets (length (Objects s)) h = (h0, pol)"
    by (cases "make_Sets (length (Objects s)) h")
  from assms mk have loop:
    "for_each (polygons_body (Matrix s) pol) (enumerate 0 (Objects s)) h0 = Inr h'"
    and pol: "polygons = pol"
    by (auto simp: Draw_polygons_alt bind_err_eq_Inr)
  from mk have 0: "heap_preserved h h0" "array pol = length (set_arrays h)"
    "len pol = length (Objects s)" "off pol = 0"
    by (auto simp: make_Sets_def heap_preserved_def)
  have "heap_preserved h h'"
    by (rule for_each_invariant [where I = "heap_preserved h", OF loop 0(1)])
       (use 0(2) in \<open>auto intro: polygons_body_preserved\<close>)
  with 0 pol show ?thesis by simp
qed

lemma Draw_polygons_total:
  assumes "list_all (\<lambda>obj. \<exists>P. deref h obj = Inr P) (Objects s)"
  shows "\<exists>h' polygons. Draw_polygons s h = Inr (h', polygons)"
proof -
  obtain h0 pol where mk: "make_Sets (length (Objects s)) h = (h0, pol)"
    by (cases "make_Sets (length (Objects s)) h")
  then have 0: "heap_preserved h h0" "array pol = length (set_arrays h)"
    "len pol = length (Objects s)"
    by (auto simp: make_Sets_def heap_preserved_def)
  have "\<exists>h'. for_each (polygons_body (Matrix s) pol) (enumerate 0 (Objects s)) h0 = Inr h'
          \<and> heap_preserved h h'"
  proof (rule for_each_total [where I = "heap_preserved h", OF 0(1)])
    fix x t
    assume x: "x \<in> set (enumerate 0 (Objects s))" and t: "heap_preserved h t"
    obtain i obj where xe: "x = (i, obj)" by (cases x)
    with x have i: "i < length (Objects s)" and obj: "obj \<in> set (Objects s)"
      by (auto simp: in_set_enumerate_eq)
    from obj assms obtain P where "deref h obj = Inr P"
      by (auto simp: list_all_iff)
    from polygons_body_total [OF this t, of i pol "Matrix s"] i 0(3)
    obtain t' where t': "polygons_body (Matrix s) pol (i, obj) t = Inr t'" by auto
    with t 0(2) have "heap_preserved h t'"
      using polygons_body_preserved by fastforce
    with t' xe show "\<exists>t'. polygons_body (Matrix s) pol x t = Inr t' \<and> heap_preserved h t'"
      by auto
  qed
  with mk show ?thesis by (auto simp: Draw_polygons_alt)
qed


text \<open>
  What the first loop of \<^verbatim>\<open>Draw\<close> leaves in \<^verbatim>\<open>polygons\<close>, on every scene whose objects
  can be drawn: for each object, in order, the three zero points of
  \<^verbatim>\<open>make([]Point, 3)\<close> followed by the object's transformed points.
\<close>

lemma append_Point_elems:
  assumes "append_Point s v hh = (hh', s')" and "backed hh s"
  shows "elems hh' s' = elems hh s @ [v] \<and> backed hh' s'
         \<and> set_arrays hh' = set_arrays hh \<and> polygon_objs hh' = polygon_objs hh"
proof (cases "len s < cap s")
  case True
  let ?arr = "point_arrays hh ! array s"
  from assms True have hh': "hh' = hh\<lparr>point_arrays :=
        (point_arrays hh)[array s := ?arr[off s + len s := v]]\<rparr>"
    and s': "s' = s\<lparr>len := len s + 1\<rparr>"
    by (auto simp: append_Point_def)
  from assms(2) True have a: "array s < length (point_arrays hh)"
    and b: "off s + len s < length ?arr"
    by (auto simp: backed_def)
  have "elems hh' s' = map (\<lambda>i. ?arr[off s + len s := v] ! (off s + i)) [0..<Suc (len s)]"
    using a by (simp add: elems_def elem_def hh' s')
  also have "\<dots> = map (\<lambda>i. ?arr ! (off s + i)) [0..<len s] @ [v]"
    using b by simp
  finally have "elems hh' s' = elems hh s @ [v]" by (simp add: elems_def elem_def)
  moreover have "backed hh' s'"
    using assms(2) True a by (simp add: backed_def hh' s')
  ultimately show ?thesis by (simp add: hh')
next
  case False
  let ?newcap = "max (len s + 1) (2 * cap s)"
  let ?new = "elems hh s @ [v] @ replicate (?newcap - (len s + 1)) zeroPoint"
  from assms False have hh': "hh' = hh\<lparr>point_arrays := point_arrays hh @ [?new]\<rparr>"
    and s': "s' = \<lparr>array = length (point_arrays hh), off = 0, len = len s + 1, cap = ?newcap\<rparr>"
    by (auto simp: append_Point_def Let_def)
  have l: "length (elems hh s) = len s" by (simp add: elems_def)
  have "elems hh' s' = map (\<lambda>i. ?new ! i) [0..<Suc (len s)]"
    by (simp add: elems_def elem_def hh' s' del: upt_Suc)
  also have "\<dots> = elems hh s @ [v]"
    using l by (intro nth_equalityI) (auto simp: nth_append simp del: upt_Suc)
  finally have "elems hh' s' = elems hh s @ [v]" .
  moreover have "backed hh' s'" using l by (simp add: backed_def hh' s')
  ultimately show ?thesis by (simp add: hh')
qed

lemma fold_append_elems:
  assumes "fold (\<lambda>k (hh, pts). append_Point pts (matrixMultiply M (elem hh S k)) hh) ks (h1, pts)
             = (h2, pts')"
    and "heap_preserved h h1" and "ks = [] \<or> array S < length (point_arrays h)"
    and "backed h1 pts" and "length (point_arrays h) \<le> array pts"
  shows "elems h2 pts' = elems h1 pts @ map (\<lambda>k. matrixMultiply M (elem h S k)) ks
         \<and> backed h2 pts' \<and> heap_preserved h h2
         \<and> set_arrays h2 = set_arrays h1 \<and> polygon_objs h2 = polygon_objs h1"
  using assms
proof (induction ks arbitrary: h1 pts)
  case Nil
  then show ?case by simp
next
  case (Cons k ks)
  from Cons.prems(3) have S: "array S < length (point_arrays h)" by simp
  let ?v = "matrixMultiply M (elem h1 S k)"
  obtain h1' pts1 where a: "append_Point pts ?v h1 = (h1', pts1)"
    by (cases "append_Point pts ?v h1")
  from append_Point_elems [OF a Cons.prems(4)]
  have e: "elems h1' pts1 = elems h1 pts @ [?v]" and b: "backed h1' pts1"
    and u: "set_arrays h1' = set_arrays h1" "polygon_objs h1' = polygon_objs h1"
    by simp_all
  from append_Point_preserved [OF a Cons.prems(2,5)]
  have p: "heap_preserved h h1'" and f: "length (point_arrays h) \<le> array pts1" by simp_all
  from Cons.prems(1) a
  have r: "fold (\<lambda>k (hh, pts). append_Point pts (matrixMultiply M (elem hh S k)) hh) ks (h1', pts1)
             = (h2, pts')"
    by simp
  have "ks = [] \<or> array S < length (point_arrays h)" using S by simp
  from Cons.IH [OF r p this b f] e u elem_preserved [OF Cons.prems(2) S, of k]
  show ?case by simp
qed

lemma polygons_body_result:
  assumes "deref h obj = Inr P" and "wf_Points h (Points P)" and "heap_preserved h t"
    and "i < len polygons" and "off polygons = 0"
  shows "\<exists>t' hdr.
           polygons_body M polygons (i, obj) t = Inr t'
           \<and> set_arrays t' = (set_arrays t)[array polygons :=
                                (set_arrays t ! array polygons)[i := hdr]]
           \<and> prefix (point_arrays t) (point_arrays t')
           \<and> array hdr < length (point_arrays t')
           \<and> elems t' hdr = replicate 3 zeroPoint @ map (matrixMultiply M) (elems h (Points P))"
proof -
  let ?h1 = "t\<lparr>point_arrays := point_arrays t @ [replicate 3 zeroPoint]\<rparr>"
  let ?pts = "\<lparr>array = length (point_arrays t), off = 0, len = 3, cap = 3\<rparr>"
  have mk: "make_Points 3 t = (?h1, ?pts)" by (simp add: make_Points_def)
  then have p1: "heap_preserved t ?h1" using make_Points_preserved by blast
  with assms(3) have hp1: "heap_preserved h ?h1" using heap_preserved_trans by blast
  with assms(1) have P: "deref ?h1 obj = Inr P" using deref_preserved by blast
  let ?f = "fold (\<lambda>k (hh, pts). append_Point pts (matrixMultiply M (elem hh (Points P) k)) hh)
              [0..<len (Points P)] (?h1, ?pts)"
  obtain h2 points' where f: "?f = (h2, points')" by (cases ?f)
  have S: "[0..<len (Points P)] = [] \<or> array (Points P) < length (point_arrays h)"
    using assms(2) by (auto simp: wf_Points_def)
  have bk: "backed ?h1 ?pts" by (simp add: backed_def)
  have fr: "length (point_arrays h) \<le> array ?pts"
    using heap_preserved_lengths [OF assms(3)] by simp
  from fold_append_elems [OF f hp1 S bk fr]
  have e: "elems h2 points' = elems ?h1 ?pts
              @ map (\<lambda>k. matrixMultiply M (elem h (Points P) k)) [0..<len (Points P)]"
    and b2: "backed h2 points'" and u: "set_arrays h2 = set_arrays ?h1"
    by simp_all
  have pre: "prefix (point_arrays t) (point_arrays h2)"
    using fold_append_preserved [OF f p1] by (simp add: heap_preserved_def)
  have z: "elems ?h1 ?pts = replicate 3 zeroPoint"
    by (simp add: elems_def elem_def map_replicate_const [symmetric] numeral_3_eq_3)
  let ?t' = "h2\<lparr>set_arrays := (set_arrays h2)[array polygons :=
                 (set_arrays h2 ! array polygons)[off polygons + i := points']]\<rparr>"
  have body: "polygons_body M polygons (i, obj) t = Inr ?t'"
    using mk P f assms(4) by (simp add: polygons_body_def store_Set_def)
  have "elems ?t' points' = elems h2 points'" by (simp add: elems_def elem_def)
  with e z have "elems ?t' points'
      = replicate 3 zeroPoint @ map (matrixMultiply M) (elems h (Points P))"
    by (simp add: elems_def)
  with body pre b2 u assms(5) show ?thesis
    by (intro exI [of _ ?t'] exI [of _ points']) (simp add: backed_def)
qed

lemma elems_same_array:
  "point_arrays h' ! array S = point_arrays h ! array S \<Longrightarrow> elems h' S = elems h S"
  by (simp add: elems_def elem_def)

lemma transformed_points_deref:
  "deref h obj = Inr P \<Longrightarrow>
     transformed_points h M obj = map (matrixMultiply M) (elems h (Points P))"
  by (simp add: transformed_points_def)

lemma polygons_loop:
  assumes "list_all (valid_object h) xs" and "length xs \<le> len pol" and "off pol = 0"
    and "heap_preserved h h0" and "length (set_arrays h) \<le> array pol"
    and "array pol < length (set_arrays h0)"
    and "length (set_arrays h0 ! array pol) = len pol"
  shows "\<exists>t. for_each (polygons_body M pol) (enumerate 0 xs) h0 = Inr t
           \<and> heap_preserved h t
           \<and> array pol < length (set_arrays t)
           \<and> length (set_arrays t ! array pol) = len pol
           \<and> (\<forall>j<length xs.
                 array (set_arrays t ! array pol ! j) < length (point_arrays t)
                 \<and> elems t (set_arrays t ! array pol ! j)
                     = replicate 3 zeroPoint @ transformed_points h M (xs ! j))"
  using assms(1,2)
proof (induction xs rule: rev_induct)
  case Nil
  then show ?case using assms(4,6,7) by simp
next
  case (snoc x xs)
  let ?A = "array pol"
  from snoc.prems have v: "valid_object h x" and vs: "list_all (valid_object h) xs"
    and n: "length xs < len pol" by simp_all
  from snoc.IH [OF vs] n obtain t where
    loop: "for_each (polygons_body M pol) (enumerate 0 xs) h0 = Inr t"
    and pt: "heap_preserved h t" and At: "?A < length (set_arrays t)"
    and Lt: "length (set_arrays t ! ?A) = len pol"
    and old: "\<forall>j<length xs.
                 array (set_arrays t ! ?A ! j) < length (point_arrays t)
                 \<and> elems t (set_arrays t ! ?A ! j)
                     = replicate 3 zeroPoint @ transformed_points h M (xs ! j)"
    by auto
  from v obtain P where P: "deref h x = Inr P" and w: "wf_Points h (Points P)"
    by (rule valid_objectD)
  from polygons_body_result [OF P w pt n assms(3), of M] obtain t' hdr where
    body: "polygons_body M pol (length xs, x) t = Inr t'"
    and sa: "set_arrays t' = (set_arrays t)[?A := (set_arrays t ! ?A)[length xs := hdr]]"
    and pre: "prefix (point_arrays t) (point_arrays t')"
    and ah: "array hdr < length (point_arrays t')"
    and eh: "elems t' hdr = replicate 3 zeroPoint @ map (matrixMultiply M) (elems h (Points P))"
    by blast
  have run: "for_each (polygons_body M pol) (enumerate 0 (xs @ [x])) h0 = Inr t'"
    using loop body by (simp add: enumerate_append_eq for_each_append)
  have pt': "heap_preserved h t'"
    using polygons_body_preserved [OF body pt assms(5)] .
  have At': "?A < length (set_arrays t')" using At sa by simp
  have Lt': "length (set_arrays t' ! ?A) = len pol" using At Lt sa by simp
  have new: "\<forall>j<length (xs @ [x]).
                 array (set_arrays t' ! ?A ! j) < length (point_arrays t')
                 \<and> elems t' (set_arrays t' ! ?A ! j)
                     = replicate 3 zeroPoint @ transformed_points h M ((xs @ [x]) ! j)"
  proof (intro allI impI)
    fix j assume j: "j < length (xs @ [x])"
    show "array (set_arrays t' ! ?A ! j) < length (point_arrays t')
          \<and> elems t' (set_arrays t' ! ?A ! j)
              = replicate 3 zeroPoint @ transformed_points h M ((xs @ [x]) ! j)"
    proof (cases "j = length xs")
      case True
      with sa At Lt n have "set_arrays t' ! ?A ! j = hdr" by simp
      with True ah eh P show ?thesis
        by (simp add: transformed_points_deref)
    next
      case False
      with j have jl: "j < length xs" by simp
      with sa At False have same: "set_arrays t' ! ?A ! j = set_arrays t ! ?A ! j" by simp
      from old jl have a: "array (set_arrays t ! ?A ! j) < length (point_arrays t)"
        and e: "elems t (set_arrays t ! ?A ! j)
                  = replicate 3 zeroPoint @ transformed_points h M (xs ! j)"
        by simp_all
      from prefix_nth [OF pre a]
      have "elems t' (set_arrays t ! ?A ! j) = elems t (set_arrays t ! ?A ! j)"
        by (rule elems_same_array)
      moreover from a pre have "array (set_arrays t ! ?A ! j) < length (point_arrays t')"
        using prefix_length_le by fastforce
      ultimately show ?thesis using same e jl by (simp add: nth_append)
    qed
  qed
  from run pt' At' Lt' new show ?case by blast
qed

lemma Draw_polygons_point_sets:
  assumes "list_all (valid_object h) (Objects s)"
  shows "\<exists>h' polygons.
           Draw_polygons s h = Inr (h', polygons)
           \<and> point_sets (h', polygons)
               = map (\<lambda>obj. replicate 3 zeroPoint @ transformed_points h (Matrix s) obj)
                   (Objects s)"
proof -
  let ?n = "length (Objects s)"
  let ?h0 = "h\<lparr>set_arrays := set_arrays h @ [replicate ?n nilSlice]\<rparr>"
  let ?pol = "\<lparr>array = length (set_arrays h), off = 0, len = ?n, cap = ?n\<rparr>"
  have mk: "make_Sets ?n h = (?h0, ?pol)" by (simp add: make_Sets_def)
  have p0: "heap_preserved h ?h0" by (simp add: heap_preserved_def)
  from polygons_loop [OF assms, of ?pol ?h0 "Matrix s"] p0 obtain t where
    loop: "for_each (polygons_body (Matrix s) ?pol) (enumerate 0 (Objects s)) ?h0 = Inr t"
    and sets: "\<forall>j<?n. elems t (set_arrays t ! length (set_arrays h) ! j)
                 = replicate 3 zeroPoint @ transformed_points h (Matrix s) (Objects s ! j)"
    by auto
  have D: "Draw_polygons s h = Inr (t, ?pol)"
    using mk loop by (simp add: Draw_polygons_alt)
  have "point_sets (t, ?pol)
          = map (\<lambda>obj. replicate 3 zeroPoint @ transformed_points h (Matrix s) obj) (Objects s)"
    using sets by (intro nth_equalityI) (simp_all add: point_sets_def)
  with D show ?thesis by blast
qed

lemma Less_heap: "Less data i j h = Inr b \<Longrightarrow> i < len (ps data) \<and> j < len (ps data)"
  by (auto simp: Less_def index_Set_def bind_err_eq_Inr split: if_splits)

lemma Less_total:
  "i < len (ps data) \<Longrightarrow> j < len (ps data) \<Longrightarrow> \<exists>b. Less data i j h = Inr b"
  by (simp add: Less_def index_Set_def)

lemma Swap_total:
  "i < len (ps data) \<Longrightarrow> j < len (ps data) \<Longrightarrow> \<exists>h'. Swap data i j h = Inr h'"
  by (simp add: Swap_def index_Set_def store_Set_def)

lemma insertionSort_inner_preserved:
  "insertionSort_inner data a j h = Inr h' \<Longrightarrow> heap_preserved h0 h \<Longrightarrow>
     length (set_arrays h0) \<le> array (ps data) \<Longrightarrow> heap_preserved h0 h'"
proof (induction j arbitrary: h)
  case 0
  then show ?case by simp
next
  case (Suc j)
  show ?case
  proof (cases "Suc j > a")
    case False
    with Suc.prems show ?thesis by simp
  next
    case True
    with Suc.prems(1) obtain lt where lt: "Less data (Suc j) j h = Inr lt"
      by (auto simp: bind_err_eq_Inr)
    show ?thesis
    proof (cases lt)
      case False
      with True lt Suc.prems show ?thesis by simp
    next
      case True
      with \<open>Suc j > a\<close> lt Suc.prems(1) obtain h1 where
        sw: "Swap data (Suc j) j h = Inr h1" and r: "insertionSort_inner data a j h1 = Inr h'"
        by (auto simp: bind_err_eq_Inr)
      from Swap_preserved [OF sw Suc.prems(2,3)] have "heap_preserved h0 h1" .
      from Suc.IH [OF r this Suc.prems(3)] show ?thesis .
    qed
  qed
qed

lemma insertionSort_inner_total:
  "j < len (ps data) \<Longrightarrow> \<exists>h'. insertionSort_inner data a j h = Inr h'"
proof (induction j arbitrary: h)
  case 0
  then show ?case by simp
next
  case (Suc j)
  then have j: "j < len (ps data)" by simp
  obtain lt where lt: "Less data (Suc j) j h = Inr lt"
    using Less_total [OF Suc.prems j] by blast
  obtain h1 where sw: "Swap data (Suc j) j h = Inr h1"
    using Swap_total [OF Suc.prems j] by blast
  from Suc.IH [OF j, of h1] lt sw show ?case by simp
qed

lemma sort_Sort_preserved:
  assumes "sort_Sort data h = Inr h'" and "heap_preserved h0 h"
    and "length (set_arrays h0) \<le> array (ps data)"
  shows "heap_preserved h0 h'"
proof (cases "Len data \<le> 1")
  case True
  with assms show ?thesis by (simp add: sort_Sort_def)
next
  case False
  with assms(1) have loop:
    "for_each (insertionSort_inner data 0) [0 + 1..<Len data] h = Inr h'"
    by (simp add: sort_Sort_def insertionSort_def)
  show ?thesis
    by (rule for_each_invariant [where I = "heap_preserved h0", OF loop assms(2)])
       (use assms(3) in \<open>auto intro: insertionSort_inner_preserved\<close>)
qed

lemma sort_Sort_total: "\<exists>h'. sort_Sort data h = Inr h'"
proof (cases "Len data \<le> 1")
  case True
  then show ?thesis by (simp add: sort_Sort_def)
next
  case False
  have "\<exists>h'. for_each (insertionSort_inner data 0) [0 + 1..<Len data] h = Inr h' \<and> True"
    by (rule for_each_total [where I = "\<lambda>h. True"])
       (auto simp: Len_def intro: insertionSort_inner_total)
  with False show ?thesis by (simp add: sort_Sort_def insertionSort_def)
qed

lemma Draw_sorted_preserved:
  assumes "Draw_sorted s h = Inr (h', polygons)"
  shows "heap_preserved h h' \<and> array polygons = length (set_arrays h)
         \<and> off polygons = 0 \<and> len polygons = length (Objects s)"
proof -
  from assms obtain h1 where
    dp: "Draw_polygons s h = Inr (h1, polygons)"
    and so: "sort_Sort \<lparr>ps = polygons, refPoint = \<lparr>Point.X = 0, Y = 0, Z = 200\<rparr>\<rparr> h1 = Inr h'"
    by (auto simp: Draw_sorted_def bind_err_eq_Inr)
  from Draw_polygons_preserved [OF dp]
  have 1: "heap_preserved h h1" "array polygons = length (set_arrays h)"
    "off polygons = 0" "len polygons = length (Objects s)" by simp_all
  from sort_Sort_preserved [OF so 1(1)] 1(2) have "heap_preserved h h'" by simp
  with 1 show ?thesis by simp
qed

lemma Draw_sorted_total:
  assumes "list_all (\<lambda>obj. \<exists>P. deref h obj = Inr P) (Objects s)"
  shows "\<exists>h' polygons. Draw_sorted s h = Inr (h', polygons)"
proof -
  from Draw_polygons_total [OF assms] obtain h1 polygons where
    "Draw_polygons s h = Inr (h1, polygons)" by blast
  moreover obtain h' where
    "sort_Sort \<lparr>ps = polygons, refPoint = \<lparr>Point.X = 0, Y = 0, Z = 200\<rparr>\<rparr> h1 = Inr h'"
    using sort_Sort_total by blast
  ultimately show ?thesis by (simp add: Draw_sorted_def)
qed

subsection \<open>Drawing a frame\<close>

lemma render_object:
  assumes "valid_object h obj" and "heap_preserved h h'"
  shows "\<exists>h'' q. Transform obj m h' = Inr (h'', q) \<and> heap_preserved h h''
           \<and> build q imd h'' =
               Inr \<lparr>Color = final_Color h [obj] (Color imd),
                    calls = calls imd @ object_calls h m obj\<rparr>"
proof -
  from assms(1) obtain P where P: "deref h obj = Inr P" and n: "0 < len (Points P)"
    and a: "array (Points P) < length (point_arrays h)"
    by (rule valid_objectD)
  from P assms(2) have P': "deref h' obj = Inr P" using deref_preserved by blast
  from a assms(2) have a': "array (Points P) < length (point_arrays h')"
    using heap_preserved_lengths by fastforce
  let ?N = "\<lparr>array = length (point_arrays h'), off = 0, len = len (Points P),
             cap = len (Points P)\<rparr>"
  let ?Q = "\<lparr>Points = ?N, Color = Polygon.Color P\<rparr>"
  let ?h = "h'\<lparr>point_arrays := point_arrays h' @ [map (matrixMultiply m) (elems h' (Points P))],
               polygon_objs := polygon_objs h' @ [?Q]\<rparr>"
  let ?q = "Some (length (polygon_objs h'))"
  have T: "Transform obj m h' = Inr (?h, ?q)"
    using Transform_result [OF P', of m] a' by simp
  then have "heap_preserved h' ?h" by (rule Transform_preserved)
  with assms(2) have pres: "heap_preserved h ?h" by (rule heap_preserved_trans)
  have Q: "deref ?h ?q = Inr ?Q" by (simp add: deref_def)
  have "elems ?h ?N = map (matrixMultiply m) (elems h' (Points P))"
    by (simp add: elems_def elem_def nth_append)
  also have "\<dots> = map (matrixMultiply m) (elems h (Points P))"
    using elems_preserved [OF assms(2) a] by simp
  finally have e: "elems ?h (Points ?Q) = map (matrixMultiply m) (elems h (Points P))"
    by simp
  have "build ?q imd ?h =
          Inr \<lparr>Color = Polygon.Color ?Q,
               calls = calls imd @ outline (Polygon.Color ?Q) (elems ?h (Points ?Q))\<rparr>"
    by (rule build_outline [OF Q]) (use n in simp)
  with e P have "build ?q imd ?h =
      Inr \<lparr>Color = final_Color h [obj] (Color imd), calls = calls imd @ object_calls h m obj\<rparr>"
    by (simp add: object_calls_def final_Color_def)
  with T pres show ?thesis by blast
qed

lemma final_Color_Cons:
  "final_Color h (obj # objs) c = final_Color h objs (final_Color h [obj] c)"
  by (simp add: final_Color_def)

lemma render_loop:
  assumes "list_all (valid_object h) objs" and "heap_preserved h h'"
  shows "\<exists>h''. for_each (\<lambda>obj (imd', h').
                   bind_err (Transform obj m h') (\<lambda>(h'', newObj).
                   bind_err (build newObj imd' h'') (\<lambda>imd''. Inr (imd'', h''))))
                 objs (imd, h')
               = Inr (\<lparr>Color = final_Color h objs (Color imd),
                       calls = calls imd @ concat (map (object_calls h m) objs)\<rparr>, h'')
             \<and> heap_preserved h h''"
  using assms
proof (induction objs arbitrary: imd h')
  case Nil
  then show ?case by (simp add: final_Color_def)
next
  case (Cons obj objs)
  from Cons.prems have v: "valid_object h obj" and vs: "list_all (valid_object h) objs"
    by simp_all
  from render_object [OF v Cons.prems(2), of m imd] obtain h1 q where
    T: "Transform obj m h' = Inr (h1, q)" and p1: "heap_preserved h h1"
    and b: "build q imd h1 = Inr \<lparr>Color = final_Color h [obj] (Color imd),
                                  calls = calls imd @ object_calls h m obj\<rparr>"
    by blast
  let ?imd1 = "\<lparr>Color = final_Color h [obj] (Color imd),
               calls = calls imd @ object_calls h m obj\<rparr>"
  from Cons.IH [OF vs p1, of ?imd1] obtain h2 where
    r: "for_each (\<lambda>obj (imd', h').
                   bind_err (Transform obj m h') (\<lambda>(h'', newObj).
                   bind_err (build newObj imd' h'') (\<lambda>imd''. Inr (imd'', h''))))
                 objs (?imd1, h1)
         = Inr (\<lparr>Color = final_Color h objs (Color ?imd1),
                 calls = calls ?imd1 @ concat (map (object_calls h m) objs)\<rparr>, h2)"
    and p2: "heap_preserved h h2"
    by blast
  from T b r p2 show ?case
    by (simp add: final_Color_Cons [of h obj objs])
qed

lemma Draw_objects_preserved:
  assumes "Draw_objects s imd h = Inr (imd', h')"
  shows "heap_preserved h h'"
proof -
  have "heap_preserved h (snd (imd', h'))"
    by (rule for_each_invariant [where I = "\<lambda>r. heap_preserved h (snd r)",
              OF assms [unfolded Draw_objects_def]])
       (auto simp: bind_err_eq_Inr dest!: Transform_preserved elim: heap_preserved_trans)
  then show ?thesis by simp
qed

lemma valid_objects_deref:
  "list_all (valid_object h) objs \<Longrightarrow> list_all (\<lambda>obj. \<exists>P. deref h obj = Inr P) objs"
  by (auto simp: list_all_iff elim: valid_objectD)

lemma Draw_result:
  assumes "list_all (valid_object h) (Objects s)"
  shows "\<exists>h' h''.
           Draw s imd h =
             Inr (s, \<lparr>Color = final_Color h (Objects s) (Color imd),
                      calls = calls imd
                        @ concat (map (object_calls h (Matrix s)) (Objects s))\<rparr>, h')
           \<and> Draw_objects s imd h =
               Inr (\<lparr>Color = final_Color h (Objects s) (Color imd),
                     calls = calls imd
                       @ concat (map (object_calls h (Matrix s)) (Objects s))\<rparr>, h'')"
proof -
  from Draw_sorted_total [OF valid_objects_deref [OF assms]] obtain h2 polygons where
    so: "Draw_sorted s h = Inr (h2, polygons)" by blast
  then have p2: "heap_preserved h h2" using Draw_sorted_preserved by blast
  let ?imd = "\<lparr>Color = final_Color h (Objects s) (Color imd),
              calls = calls imd @ concat (map (object_calls h (Matrix s)) (Objects s))\<rparr>"
  from render_loop [OF assms p2, of "Matrix s" imd] obtain h3 where
    "Draw_objects s imd h2 = Inr (?imd, h3)"
    by (auto simp: Draw_objects_def)
  with so have 1: "Draw s imd h = Inr (s, ?imd, h3)" by (simp add: Draw_def)
  from render_loop [OF assms heap_preserved_refl, of "Matrix s" imd] obtain h4 where
    2: "Draw_objects s imd h = Inr (?imd, h4)"
    by (auto simp: Draw_objects_def)
  from 1 2 show ?thesis by auto
qed

lemma Draw_frame:
  assumes "Draw s imd h = Inr (s', imd', h')"
  shows "s' = s \<and> heap_preserved h h'
         \<and> (\<exists>h1 polygons. Draw_sorted s h = Inr (h1, polygons) \<and> heap_preserved h h1
               \<and> length (set_arrays h) \<le> array polygons)"
proof -
  from assms obtain h2 polygons where so: "Draw_sorted s h = Inr (h2, polygons)"
    and ob: "Draw_objects s imd h2 = Inr (imd', h')" and s': "s' = s"
    by (auto simp: Draw_def bind_err_eq_Inr)
  from Draw_sorted_preserved [OF so] have p2: "heap_preserved h h2"
    and fresh: "array polygons = length (set_arrays h)" by simp_all
  from Draw_objects_preserved [OF ob] p2 have p: "heap_preserved h h'"
    using heap_preserved_trans by blast
  from p s' so p2 fresh show ?thesis by auto
qed

text \<open>
  C2. On a scene whose objects can be drawn, \<^verbatim>\<open>Draw\<close> returns, and the calls it adds
  to the surface are, object by object in the order of \<^verbatim>\<open>s.Objects\<close>, the outline of
  the object's points transformed by the current matrix. The surface is left exactly as
  by the loop over \<^verbatim>\<open>s.Objects\<close> alone (\<open>Draw_objects\<close>, which calls \<^verbatim>\<open>Transform\<close>
  and \<^verbatim>\<open>build\<close> for every object) run without the depth-ordering pass: the sorted
  order has no effect on what is rendered.
\<close>

theorem Draw_renders_in_insertion_order:
  assumes "list_all (valid_object h) (Objects s)"
  shows "\<exists>imd' h' h''.
           Draw s imd h = Inr (s, imd', h')
           \<and> calls imd' = calls imd @ concat (map (object_calls h (Matrix s)) (Objects s))
           \<and> Draw_objects s imd h = Inr (imd', h'')"
  using Draw_result [OF assms, of imd] by fastforce

theorem Draw_renders_in_insertion_order_witness:
  "list_all (valid_object example_heap) (Objects example_scene)
   \<and> (\<exists>imd' h' h''.
         Draw example_scene example_surface example_heap = Inr (example_scene, imd', h')
         \<and> calls imd'
             = [PushCall (- 30, - 30) ''red'', PushCall (30, - 30) ''red'',
                PushCall (0, 60) ''red'', PushCall (- 30, - 30) ''red'',
                PolygonCall 1, DrawCall,
                PushCall (- 30, - 30) ''blue'', PushCall (30, - 30) ''blue'',
                PushCall (0, 60) ''blue'', PushCall (- 30, - 30) ''blue'',
                PolygonCall 1, DrawCall]
         \<and> Draw_objects example_scene example_surface example_heap = Inr (imd', h''))"
proof -
  have c: "concat (map (object_calls example_heap (Matrix example_scene)) (Objects example_scene))
     = [PushCall (- 30, - 30) ''red'', PushCall (30, - 30) ''red'',
                PushCall (0, 60) ''red'', PushCall (- 30, - 30) ''red'',
                PolygonCall 1, DrawCall,
                PushCall (- 30, - 30) ''blue'', PushCall (30, - 30) ''blue'',
                PushCall (0, 60) ''blue'', PushCall (- 30, - 30) ''blue'',
                PolygonCall 1, DrawCall]"
    by (simp add: object_calls_def example_facts outline_def V_def
          matrixMultiply_def example_scene_def AddObject_def NewSpace_def)
  from Draw_renders_in_insertion_order [OF example_valid, of example_surface]
  show ?thesis
    using example_valid by (simp add: c example_surface_def)
qed

text \<open>
  C9. A call of \<^verbatim>\<open>Draw\<close> that returns leaves the scene as it was: the matrix and the
  list of objects are the same, and everything allocated before the call (every polygon
  struct, with its slice header and colour, and every array of points) is unchanged.
  The slice that the depth-ordering pass sorts is in an array allocated by the call.
\<close>

theorem Draw_preserves_scene:
  assumes "Draw s imd h = Inr (s', imd', h')"
  shows "s' = s \<and> Matrix s' = Matrix s \<and> Objects s' = Objects s
         \<and> heap_preserved h h'
         \<and> (deref h obj = Inr P \<longrightarrow> deref h' obj = Inr P)
         \<and> (wf_Points h S \<longrightarrow> elems h' S = elems h S)
         \<and> (\<exists>h1 polygons. Draw_sorted s h = Inr (h1, polygons) \<and> heap_preserved h h1
               \<and> length (set_arrays h) \<le> array polygons)"
  using Draw_frame [OF assms]
  by (auto dest: deref_preserved wf_Points_elems_preserved)

theorem Draw_preserves_scene_witness:
  "\<exists>imd' h'.
     Draw example_scene example_surface example_heap = Inr (example_scene, imd', h')
     \<and> heap_preserved example_heap h'
     \<and> deref h' (Some 0)
         = Inr \<lparr>Points = \<lparr>array = 0, off = 0, len = 3, cap = 3\<rparr>, Color = ''red''\<rparr>
     \<and> deref h' (Some 1)
         = Inr \<lparr>Points = \<lparr>array = 1, off = 0, len = 3, cap = 3\<rparr>, Color = ''blue''\<rparr>
     \<and> elems h' \<lparr>array = 0, off = 0, len = 3, cap = 3\<rparr>
         = [\<lparr>Point.X = - 30, Y = - 30, Z = 300\<rparr>, \<lparr>Point.X = 30, Y = - 30, Z = 300\<rparr>,
            \<lparr>Point.X = 0, Y = 60, Z = 300\<rparr>]
     \<and> elems h' \<lparr>array = 1, off = 0, len = 3, cap = 3\<rparr>
         = [\<lparr>Point.X = - 30, Y = - 30, Z = 150\<rparr>, \<lparr>Point.X = 30, Y = - 30, Z = 150\<rparr>,
            \<lparr>Point.X = 0, Y = 60, Z = 150\<rparr>]"
proof -
  from Draw_result [OF example_valid, of example_surface] obtain imd' h' where
    D: "Draw example_scene example_surface example_heap = Inr (example_scene, imd', h')"
    by blast
  have w: "wf_Points example_heap \<lparr>array = 0, off = 0, len = 3, cap = 3\<rparr>"
    "wf_Points example_heap \<lparr>array = 1, off = 0, len = 3, cap = 3\<rparr>"
    by (simp_all add: wf_Points_def example_heap_def)
  from Draw_preserves_scene [OF D, of "Some 0" _ "\<lparr>array = 0, off = 0, len = 3, cap = 3\<rparr>"]
    Draw_preserves_scene [OF D, of "Some 1" _ "\<lparr>array = 1, off = 0, len = 3, cap = 3\<rparr>"]
    D w
  show ?thesis by (auto simp: example_facts)
qed

subsection \<open>The order that the depth-ordering pass computes\<close>

lemma fold_sums:
  "fold (\<lambda>i (sumX, sumY, sumZ).
           (sumX + Point.X (f i), sumY + Point.Y (f i), sumZ + Point.Z (f i))) js (a, b, c)
   = (a + sum_list (map (\<lambda>i. Point.X (f i)) js),
      b + sum_list (map (\<lambda>i. Point.Y (f i)) js),
      c + sum_list (map (\<lambda>i. Point.Z (f i)) js))"
  by (induction js arbitrary: a b c) (simp_all add: add.assoc)

lemma computeCentroid_mean:
  "computeCentroid h S = (if len S = 0 then None else Some (mean_point (elems h S)))"
  by (simp add: computeCentroid_def fold_sums mean_point_def elems_def comp_def Let_def
        del: fold_simps)

lemmas eval_defs =
  Draw_sorted_def Draw_polygons_def example_scene_def example_heap_def AddObject_def
  NewSpace_def make_Sets_def make_Points_def deref_def append_Point_def matrixMultiply_def
  elem_def elems_def store_Set_def zeroPoint_def nilSlice_def sort_Sort_def insertionSort_def
  Len_def Less_def Swap_def index_Set_def computeCentroid_def euclideanDistance_def
  point_sets_def set_centroids_def

lemma example_sorted_sets:
  "map_sum id point_sets (Draw_sorted example_scene example_heap) =
     Inr [[zeroPoint, zeroPoint, zeroPoint,
           \<lparr>Point.X = - 30, Y = - 30, Z = 150\<rparr>, \<lparr>Point.X = 30, Y = - 30, Z = 150\<rparr>,
           \<lparr>Point.X = 0, Y = 60, Z = 150\<rparr>],
          [zeroPoint, zeroPoint, zeroPoint,
           \<lparr>Point.X = - 30, Y = - 30, Z = 300\<rparr>, \<lparr>Point.X = 30, Y = - 30, Z = 300\<rparr>,
           \<lparr>Point.X = 0, Y = 60, Z = 300\<rparr>]]"
  by (simp add: eval_defs enumerate_eq_zip upt_rec numeral_2_eq_2 numeral_3_eq_3)

lemma example_sorted_centroids:
  "map_sum id set_centroids (Draw_sorted example_scene example_heap) =
     Inr [Some \<lparr>Point.X = 0, Y = 0, Z = 75\<rparr>, Some \<lparr>Point.X = 0, Y = 0, Z = 150\<rparr>]"
  by (simp add: eval_defs enumerate_eq_zip upt_rec numeral_2_eq_2 numeral_3_eq_3)

lemma example_transformed:
  "transformed_points example_heap (Matrix example_scene) (Some 0)
     = [\<lparr>Point.X = - 30, Y = - 30, Z = 300\<rparr>, \<lparr>Point.X = 30, Y = - 30, Z = 300\<rparr>,
        \<lparr>Point.X = 0, Y = 60, Z = 300\<rparr>]"
  "transformed_points example_heap (Matrix example_scene) (Some 1)
     = [\<lparr>Point.X = - 30, Y = - 30, Z = 150\<rparr>, \<lparr>Point.X = 30, Y = - 30, Z = 150\<rparr>,
        \<lparr>Point.X = 0, Y = 60, Z = 150\<rparr>]"
  by (simp_all add: transformed_points_def example_facts matrixMultiply_def example_scene_def
        AddObject_def NewSpace_def)

lemmas example_transformed_facts =
  example_transformed example_transformed [unfolded One_nat_def]

text \<open>
  C1, evaluated on the example scene. The claim is that the depth-ordering pass takes
  the centroid of exactly each polygon's transformed points and sorts by descending
  distance of that centroid from \<open>(0, 0, 200)\<close>. In the code every point set starts with
  the three zero points of \<^verbatim>\<open>make([]Point, 3)\<close> and the transformed points are appended
  after them (on every scene that can be drawn: \<open>Draw_polygons_point_sets\<close>), and
  \<^verbatim>\<open>computeCentroid\<close> is the mean of all of them (\<open>computeCentroid_mean\<close>). In
  the example the centroids of the transformed points are at distance 100
  (first object) and 50 (second object), so the claimed order puts the first object's
  set first; the centroids of the padded sets are at distance 50 and 125, and the code
  puts the second object's set first.
\<close>

theorem Draw_sorted_pads_point_sets:
  "map_sum id point_sets (Draw_sorted example_scene example_heap) =
     Inr [replicate 3 zeroPoint
            @ transformed_points example_heap (Matrix example_scene) (Some 1),
          replicate 3 zeroPoint
            @ transformed_points example_heap (Matrix example_scene) (Some 0)]
   \<and> map_sum id set_centroids (Draw_sorted example_scene example_heap) =
       Inr [Some \<lparr>Point.X = 0, Y = 0, Z = 75\<rparr>, Some \<lparr>Point.X = 0, Y = 0, Z = 150\<rparr>]
   \<and> mean_point (transformed_points example_heap (Matrix example_scene) (Some 1))
       = \<lparr>Point.X = 0, Y = 0, Z = 150\<rparr>
   \<and> mean_point (transformed_points example_heap (Matrix example_scene) (Some 0))
       = \<lparr>Point.X = 0, Y = 0, Z = 300\<rparr>
   \<and> euclideanDistance \<lparr>Point.X = 0, Y = 0, Z = 150\<rparr> \<lparr>Point.X = 0, Y = 0, Z = 200\<rparr> = 50
   \<and> euclideanDistance \<lparr>Point.X = 0, Y = 0, Z = 300\<rparr> \<lparr>Point.X = 0, Y = 0, Z = 200\<rparr> = 100
   \<and> mean_point (replicate 3 zeroPoint
                   @ transformed_points example_heap (Matrix example_scene) (Some 1))
       = \<lparr>Point.X = 0, Y = 0, Z = 75\<rparr>
   \<and> mean_point (replicate 3 zeroPoint
                   @ transformed_points example_heap (Matrix example_scene) (Some 0))
       = \<lparr>Point.X = 0, Y = 0, Z = 150\<rparr>
   \<and> euclideanDistance \<lparr>Point.X = 0, Y = 0, Z = 75\<rparr> \<lparr>Point.X = 0, Y = 0, Z = 200\<rparr> = 125
   \<and> euclideanDistance \<lparr>Point.X = 0, Y = 0, Z = 150\<rparr> \<lparr>Point.X = 0, Y = 0, Z = 200\<rparr>
       < euclideanDistance \<lparr>Point.X = 0, Y = 0, Z = 300\<rparr> \<lparr>Point.X = 0, Y = 0, Z = 200\<rparr>"
proof -
  have s50: "sqrt 2500 = 50" by (rule real_sqrt_unique) simp_all
  have s100: "sqrt 10000 = 100" by (rule real_sqrt_unique) simp_all
  have s125: "sqrt 15625 = 125" by (rule real_sqrt_unique) simp_all
  show ?thesis
    by (simp add: example_sorted_sets example_sorted_centroids example_transformed_facts
          mean_point_def zeroPoint_def euclideanDistance_def s50 s100 s125 numeral_3_eq_3)
qed

end
